theory Spec2Isabelle
  imports Main "HOL-Library.Sublist"
begin

section \<open>Error monitor (src/error-monitor.js)\<close>

text \<open>
  The module keeps no state in memory: every exported function reads the three JSON files
  under \<^verbatim>\<open>data/\<close> and writes them back. The model passes the contents of these
  files explicitly. Timestamps are ISO strings in the source and are only ever compared
  after \<^verbatim>\<open>new Date(...)\<close>; the model stores the millisecond value. Strings are byte
  strings (the source's text is ASCII in all call sites of this repository). One
  synchronous call reads the clock several times in a row; the model takes one reading
  \<open>now\<close> per call. \<^verbatim>\<open>fs.writeFileSync\<close> is taken to succeed.
\<close>

subsection \<open>Data\<close>

record event =
  eid :: string
  timestamp :: int
  severity :: string
  source :: string
  message :: "string option"
  stack :: "string option"
  ctxt :: "(string \<times> string) list"
  fingerprint :: string
  acknowledged :: bool
  acknowledgedAt :: "int option"

text \<open>The argument of \<^verbatim>\<open>logError\<close>: every property may be undefined.\<close>

record errorInput =
  inSeverity :: "string option"
  inSource :: "string option"
  inMessage :: "string option"
  inStack :: "string option"
  inContext :: "(string \<times> string) list option"

record errorConfig =
  sources :: "string list"
  alertThreshold :: int
  windowMinutes :: int
  silenceMinutes :: int
  severityFilter :: "string list"
  slackWebhook :: "string option"
  emailRecipients :: "string list"

text \<open>What a parsed \<^verbatim>\<open>error-config.json\<close> may override.\<close>

record errorConfigJson =
  jSources :: "string list option"
  jAlertThreshold :: "int option"
  jWindowMinutes :: "int option"
  jSilenceMinutes :: "int option"
  jSeverityFilter :: "string list option"
  jSlackWebhook :: "string option option"
  jEmailRecipients :: "string list option"

text \<open>
  A file on disk: absent, present but rejected by \<^verbatim>\<open>readFileSync\<close> or
  \<^verbatim>\<open>JSON.parse\<close> (both throw inside the same \<^verbatim>\<open>try\<close>), or holding a value.
\<close>

datatype 'a jsonFile = Missing | Unparseable | Content 'a

record fs =
  errorsFile :: "event list jsonFile"
  configFile :: "errorConfigJson jsonFile"
  alertsFile :: "(string \<rightharpoonup> int) jsonFile"

subsection \<open>JavaScript helpers\<close>

text \<open>\<^verbatim>\<open>a || b\<close> on a possibly undefined string: the empty string is falsy too.\<close>

definition orElse :: "string option \<Rightarrow> string \<Rightarrow> string" where
  "orElse a b = (case a of None \<Rightarrow> b | Some s \<Rightarrow> if s = [] then b else s)"

text \<open>\<^verbatim>\<open>xs.slice(-n)\<close>: the last \<open>n\<close> elements, all of them when there are fewer.\<close>

definition sliceLast :: "nat \<Rightarrow> 'a list \<Rightarrow> 'a list" where
  "sliceLast n xs = drop (length xs - n) xs"

text \<open>\<^verbatim>\<open>parts.join('|')\<close>.\<close>

fun joinBar :: "string list \<Rightarrow> string" where
  "joinBar [] = []"
| "joinBar [p] = p"
| "joinBar (p # q # ps) = p @ ''|'' @ joinBar (q # ps)"

text \<open>\<^verbatim>\<open>Buffer.from(s).toString('base64')\<close>, over the bytes of the string.\<close>

definition b64alphabet :: string where
  "b64alphabet = ''ABCDEFGHIJKLMNOPQRSTUVWXYZabcdefghijklmnopqrstuvwxyz0123456789+/''"

definition b64char :: "nat \<Rightarrow> char" where
  "b64char n = b64alphabet ! (n mod 64)"

fun b64bytes :: "nat list \<Rightarrow> string" where
  "b64bytes [] = []"
| "b64bytes [a] = [b64char (a div 4), b64char ((a mod 4) * 16), CHR ''='', CHR ''='']"
| "b64bytes [a, b] =
     [b64char (a div 4), b64char ((a mod 4) * 16 + b div 16),
      b64char ((b mod 16) * 4), CHR ''='']"
| "b64bytes (a # b # c # rest) =
     [b64char (a div 4), b64char ((a mod 4) * 16 + b div 16),
      b64char ((b mod 16) * 4 + c div 64), b64char (c mod 64)] @ b64bytes rest"

definition base64 :: "string \<Rightarrow> string" where
  "base64 s = b64bytes (map of_char s)"

text \<open>
  The order in which \<^verbatim>\<open>Object.entries\<close> and \<^verbatim>\<open>for ... in\<close> enumerate the own
  string keys of an object: keys that are array indices (canonical decimal numerals below
  \<open>2^32 - 1\<close>) first, in ascending numeric order, then all other keys in the order in
  which they were created.
\<close>

definition isDigit :: "char \<Rightarrow> bool" where
  "isDigit c = (48 \<le> (of_char c :: nat) \<and> (of_char c :: nat) \<le> 57)"

definition decimalValue :: "string \<Rightarrow> nat" where
  "decimalValue s = foldl (\<lambda>acc c. 10 * acc + ((of_char c :: nat) - 48)) 0 s"

definition isArrayIndex :: "string \<Rightarrow> bool" where
  "isArrayIndex s =
     (s \<noteq> [] \<and> list_all isDigit s \<and> (length s = 1 \<or> hd s \<noteq> CHR ''0'')
      \<and> decimalValue s < 4294967295)"

definition ownKeys :: "string list \<Rightarrow> string list" where
  "ownKeys ks =
     sort_key decimalValue (filter isArrayIndex ks) @ filter (\<lambda>k. \<not> isArrayIndex k) ks"

text \<open>The keys of an object filled by one pass over a list, in creation order.\<close>

fun createdKeys :: "string list \<Rightarrow> string list \<Rightarrow> string list" where
  "createdKeys seen [] = seen"
| "createdKeys seen (k # ks) =
     (if k \<in> set seen then createdKeys seen ks else createdKeys (seen @ [k]) ks)"

subsection \<open>Configuration and the event log\<close>

definition defaults :: errorConfig where
  "defaults =
     \<lparr>sources = [], alertThreshold = 10, windowMinutes = 60, silenceMinutes = 15,
      severityFilter = [''error'', ''critical''], slackWebhook = None,
      emailRecipients = []\<rparr>"

definition override :: "'a \<Rightarrow> 'a option \<Rightarrow> 'a" where
  "override d j = (case j of None \<Rightarrow> d | Some v \<Rightarrow> v)"

text \<open>\<^verbatim>\<open>{ ...defaults, ...JSON.parse(...) }\<close>.\<close>

definition mergeConfig :: "errorConfig \<Rightarrow> errorConfigJson \<Rightarrow> errorConfig" where
  "mergeConfig d j =
     \<lparr>sources = override (sources d) (jSources j),
      alertThreshold = override (alertThreshold d) (jAlertThreshold j),
      windowMinutes = override (windowMinutes d) (jWindowMinutes j),
      silenceMinutes = override (silenceMinutes d) (jSilenceMinutes j),
      severityFilter = override (severityFilter d) (jSeverityFilter j),
      slackWebhook = override (slackWebhook d) (jSlackWebhook j),
      emailRecipients = override (emailRecipients d) (jEmailRecipients j)\<rparr>"

definition loadErrorConfig :: "fs \<Rightarrow> errorConfig" where
  "loadErrorConfig f =
     (case configFile f of Content j \<Rightarrow> mergeConfig defaults j | _ \<Rightarrow> defaults)"

definition loadErrors :: "fs \<Rightarrow> event list" where
  "loadErrors f = (case errorsFile f of Content es \<Rightarrow> es | _ \<Rightarrow> [])"

definition saveErrors :: "fs \<Rightarrow> event list \<Rightarrow> fs" where
  "saveErrors f errors = f\<lparr>errorsFile := Content (sliceLast 1000 errors)\<rparr>"

definition generateFingerprint :: "errorInput \<Rightarrow> string" where
  "generateFingerprint error =
     take 16 (base64 (joinBar
       [orElse (inSource error) '''',
        orElse (map_option (take 100) (inMessage error)) '''',
        orElse (inSeverity error) '''']))"

subsection \<open>The alert gate\<close>

definition getLastAlert :: "fs \<Rightarrow> string \<Rightarrow> int option" where
  "getLastAlert f fp = (case alertsFile f of Content alerts \<Rightarrow> alerts fp | _ \<Rightarrow> None)"

definition recordAlert :: "fs \<Rightarrow> int \<Rightarrow> string \<Rightarrow> fs" where
  "recordAlert f now fp =
     (let alerts = (case alertsFile f of Content a \<Rightarrow> a | _ \<Rightarrow> Map.empty)
      in f\<lparr>alertsFile := Content (alerts(fp \<mapsto> now))\<rparr>)"

text \<open>One line of the alert printed by \<^verbatim>\<open>triggerAlert\<close>, for one fingerprint.\<close>

record alertLine =
  alertFp :: string
  alertSample :: "event option"
  alertCount :: nat

definition alertLineFor :: "event list \<Rightarrow> string \<Rightarrow> alertLine" where
  "alertLineFor errors fp =
     \<lparr>alertFp = fp,
      alertSample = find (\<lambda>e. fingerprint e = fp) errors,
      alertCount = length (filter (\<lambda>e. fingerprint e = fp) errors)\<rparr>"

definition alertKeys :: "event list \<Rightarrow> string list" where
  "alertKeys errors = ownKeys (createdKeys [] (map fingerprint errors))"

definition triggerAlert :: "fs \<Rightarrow> int \<Rightarrow> event list \<Rightarrow> fs \<times> alertLine list" where
  "triggerAlert f now errors =
     (foldl (\<lambda>g fp. recordAlert g now fp) f (alertKeys errors),
      map (alertLineFor errors) (alertKeys errors))"

definition recentErrors :: "errorConfig \<Rightarrow> int \<Rightarrow> event list \<Rightarrow> event list" where
  "recentErrors config now errors =
     filter (\<lambda>e. timestamp e \<ge> now - windowMinutes config * 60 * 1000
                 \<and> severity e \<in> set (severityFilter config)) errors"

definition checkAlertThreshold :: "fs \<Rightarrow> int \<Rightarrow> event \<Rightarrow> fs \<times> alertLine list" where
  "checkAlertThreshold f now newError =
     (let config = loadErrorConfig f;
          recent = recentErrors config now (loadErrors f)
      in if int (length recent) \<ge> alertThreshold config
         then (case getLastAlert f (fingerprint newError) of
                 None \<Rightarrow> triggerAlert f now recent
               | Some lastAlert \<Rightarrow>
                   if now - lastAlert > silenceMinutes config * 60 * 1000
                   then triggerAlert f now recent
                   else (f, []))
         else (f, []))"

text \<open>
  \<^verbatim>\<open>logError\<close>: the identifier is built from the clock and \<^verbatim>\<open>Math.random()\<close>;
  the model takes it as an argument. The result is the disk afterwards, the stored entry and
  the alert lines printed (empty when no alert fired).
\<close>

definition makeEntry :: "string \<Rightarrow> int \<Rightarrow> errorInput \<Rightarrow> event" where
  "makeEntry newId now error =
     \<lparr>eid = newId, timestamp = now,
      severity = orElse (inSeverity error) ''error'',
      source = orElse (inSource error) ''unknown'',
      message = inMessage error, stack = inStack error,
      ctxt = (case inContext error of None \<Rightarrow> [] | Some c \<Rightarrow> c),
      fingerprint = generateFingerprint error,
      acknowledged = False, acknowledgedAt = None\<rparr>"

definition logError :: "fs \<Rightarrow> string \<Rightarrow> int \<Rightarrow> errorInput \<Rightarrow> fs \<times> event \<times> alertLine list" where
  "logError f newId now error =
     (let errors = loadErrors f;
          entry = makeEntry newId now error;
          f1 = saveErrors f (errors @ [entry]);
          (f2, fired) = checkAlertThreshold f1 now entry
      in (f2, entry, fired))"

text \<open>
  \<^verbatim>\<open>acknowledgeError\<close>: the first event with the given identifier is marked and the
  log is saved; when there is none, nothing is written.
\<close>

fun markFirst :: "string \<Rightarrow> int \<Rightarrow> event list \<Rightarrow> (event list \<times> event) option" where
  "markFirst errorId now [] = None"
| "markFirst errorId now (e # es) =
     (if eid e = errorId
      then (let e' = e\<lparr>acknowledged := True, acknowledgedAt := Some now\<rparr>
            in Some (e' # es, e'))
      else (case markFirst errorId now es of
              None \<Rightarrow> None
            | Some (es', e') \<Rightarrow> Some (e # es', e')))"

definition acknowledgeError :: "fs \<Rightarrow> int \<Rightarrow> string \<Rightarrow> fs \<times> event option" where
  "acknowledgeError f now errorId =
     (case markFirst errorId now (loadErrors f) of
        None \<Rightarrow> (f, None)
      | Some (errors, error) \<Rightarrow> (saveErrors f errors, Some error))"

subsection \<open>The summary\<close>

record summaryOptions =
  optHours :: int
  optSeverity :: "string option"
  optSource :: "string option"

text \<open>\<^verbatim>\<open>const { hours = 24, severity = null, source = null } = options\<close>.\<close>

definition defaultOptions :: summaryOptions where
  "defaultOptions = \<lparr>optHours = 24, optSeverity = None, optSource = None\<rparr>"

record topError =
  topFingerprint :: string
  topCount :: nat
  topSample :: "event option"

record summary =
  totalErrors :: nat
  periodHours :: int
  periodFrom :: int
  bySeverity :: "(string \<times> nat) list"
  bySource :: "(string \<times> nat) list"
  topErrors :: "topError list"
  summaryTimestamp :: int

text \<open>A filter applied only when the option is truthy.\<close>

definition filterIf :: "string option \<Rightarrow> (event \<Rightarrow> string) \<Rightarrow> event list \<Rightarrow> event list" where
  "filterIf opt field es =
     (case opt of
        None \<Rightarrow> es
      | Some v \<Rightarrow> if v = [] then es else filter (\<lambda>e. field e = v) es)"

definition summaryFiltered :: "summaryOptions \<Rightarrow> int \<Rightarrow> event list \<Rightarrow> event list" where
  "summaryFiltered options now errors =
     filterIf (optSource options) source
       (filterIf (optSeverity options) severity
          (filter (\<lambda>e. timestamp e \<ge> now - optHours options * 60 * 60 * 1000) errors))"

text \<open>
  A counting object \<^verbatim>\<open>o[k] = (o[k] || 0) + 1\<close> filled over a list, as the entries
  \<^verbatim>\<open>Object.entries\<close> returns.
\<close>

definition countEntries :: "(event \<Rightarrow> string) \<Rightarrow> event list \<Rightarrow> (string \<times> nat) list" where
  "countEntries field es =
     map (\<lambda>k. (k, length (filter (\<lambda>e. field e = k) es)))
       (ownKeys (createdKeys [] (map field es)))"

text \<open>
  \<^verbatim>\<open>.sort((a, b) => b[1] - a[1])\<close>: a stable sort by descending count, then the first
  five.
\<close>

definition sortByCountDesc :: "(string \<times> nat) list \<Rightarrow> (string \<times> nat) list" where
  "sortByCountDesc entries = sort_key (\<lambda>p. - int (snd p)) entries"

definition topOf :: "event list \<Rightarrow> topError list" where
  "topOf filtered =
     map (\<lambda>p. \<lparr>topFingerprint = fst p, topCount = snd p,
                topSample = find (\<lambda>e. fingerprint e = fst p) filtered\<rparr>)
       (take 5 (sortByCountDesc (countEntries fingerprint filtered)))"

definition getErrorSummary :: "fs \<Rightarrow> int \<Rightarrow> summaryOptions \<Rightarrow> summary" where
  "getErrorSummary f now options =
     (let filtered = summaryFiltered options now (loadErrors f)
      in \<lparr>totalErrors = length filtered,
          periodHours = optHours options,
          periodFrom = now - optHours options * 60 * 60 * 1000,
          bySeverity = countEntries severity filtered,
          bySource = countEntries source filtered,
          topErrors = topOf filtered,
          summaryTimestamp = now\<rparr>)"

section \<open>The daemon (repository monitor)\<close>

text \<open>
  The daemon keeps its state in module variables: \<^verbatim>\<open>isRunning\<close>,
  \<^verbatim>\<open>checkCount\<close>, \<^verbatim>\<open>lastCheck\<close> and the map \<^verbatim>\<open>repoState\<close>. Nothing of it is
  written to disk. The collaborators (GitHub, the package registry, the webhooks) are
  outside the program; a \<open>repoWorld\<close> holds what each of them answers during one call of
  \<^verbatim>\<open>checkRepo\<close>, a thrown \<^verbatim>\<open>Error\<close> being the left injection. The notification
  functions catch their own failures and never throw.
\<close>

subsection \<open>Data\<close>

datatype error = Error string

record repoStatus =
  openPRs :: nat
  openIssues :: nat
  recentBuilds :: nat
  statusFailedBuilds :: nat

record failure =
  failureRunId :: nat
  failureName :: string

record update =
  updateName :: string
  updateType :: string
  shouldAutoUpdate :: bool

record pullRequest =
  number :: nat
  url :: string

record releaseCheck =
  needed :: bool
  reason :: string

text \<open>The object stored per repository; \<^verbatim>\<open>{}\<close> has every property undefined.\<close>

record targetState =
  failedBuilds :: "nat option"
  pendingDepsPR :: "nat option"
  releaseNotified :: bool
  lastCheck :: "int option"

definition emptyState :: targetState where
  "emptyState =
     \<lparr>failedBuilds = None, pendingDepsPR = None, releaseNotified = False, lastCheck = None\<rparr>"

text \<open>\<^verbatim>\<open>config.deps.autoUpdate\<close> and \<^verbatim>\<open>config.targetRepos\<close>.\<close>

record daemonConfig =
  targetRepos :: "string list"
  autoPatch :: bool
  autoMinor :: bool
  autoMajor :: bool

definition config :: "string list \<Rightarrow> daemonConfig" where
  "config repos =
     \<lparr>targetRepos = repos, autoPatch = True, autoMinor = True, autoMajor = False\<rparr>"

record repoWorld =
  wStatus :: "error + repoStatus"
  wFailures :: "error + failure list"
  wScan :: "error + update list option"
  wCreatePR :: "error + pullRequest"
  wRelease :: "error + releaseCheck"
  wNow :: int

text \<open>The calls to collaborators and the release line printed, in order.\<close>

datatype call =
    GetRepoStatus string
  | GetFailedBuildDetails string
  | NotifyBuildFailure string failure
  | ScanDependencies string
  | CreateDependencyUpdatePR string "update list"
  | NotifyDependencyUpdate string nat
  | IsReleaseNeeded string
  | ReleaseMayBeNeeded string string

datatype checkResult = Success repoStatus | Failed error

subsection \<open>checkRepo\<close>

text \<open>Truthiness of a possibly undefined number: \<open>0\<close> is falsy.\<close>

definition truthy :: "nat option \<Rightarrow> bool" where
  "truthy v = (case v of None \<Rightarrow> False | Some n \<Rightarrow> n \<noteq> 0)"

text \<open>
  The three parts of the \<^verbatim>\<open>try\<close> block. Each returns the error that left it (if
  any), the \<^verbatim>\<open>prevState\<close> object as it is then, and the calls made.
\<close>

definition buildStage ::
  "string \<Rightarrow> targetState \<Rightarrow> repoStatus \<Rightarrow> repoWorld \<Rightarrow> error option \<times> call list" where
  "buildStage repo prevState status w =
     (if statusFailedBuilds status > 0
         \<and> Some (statusFailedBuilds status) \<noteq> failedBuilds prevState
      then (case wFailures w of
              Inl e \<Rightarrow> (Some e, [GetFailedBuildDetails repo])
            | Inr failures \<Rightarrow>
                (None, GetFailedBuildDetails repo
                         # map (NotifyBuildFailure repo) (take 3 failures)))
      else (None, []))"

text \<open>
  \<^verbatim>\<open>createDependencyUpdatePR\<close> (src/pr-creator.js) returns \<^verbatim>\<open>null\<close> for an empty
  list of updates, otherwise the pull request GitHub created, or rethrows.
\<close>

definition createDependencyUpdatePR ::
  "repoWorld \<Rightarrow> update list \<Rightarrow> error + pullRequest option" where
  "createDependencyUpdatePR w updates =
     (if updates = [] then Inr None
      else (case wCreatePR w of Inl e \<Rightarrow> Inl e | Inr pr \<Rightarrow> Inr (Some pr)))"

text \<open>\<^verbatim>\<open>scanDependencies(...).autoUpdates\<close>: undefined when there is no package.json.\<close>

definition scanAutoUpdates :: "update list option \<Rightarrow> update list option" where
  "scanAutoUpdates scanned = map_option (filter shouldAutoUpdate) scanned"

definition eligible :: "daemonConfig \<Rightarrow> update list \<Rightarrow> update list" where
  "eligible cfg ups =
     filter (\<lambda>u. (updateType u = ''minor'' \<and> autoMinor cfg)
                \<or> (updateType u = ''patch'' \<and> autoPatch cfg)) ups"

definition depsStage ::
  "daemonConfig \<Rightarrow> nat \<Rightarrow> string \<Rightarrow> targetState \<Rightarrow> repoWorld
     \<Rightarrow> error option \<times> targetState \<times> call list" where
  "depsStage cfg count repo prevState w =
     (if count mod 4 = 0
      then (case wScan w of
              Inl e \<Rightarrow> (Some e, prevState, [ScanDependencies repo])
            | Inr scanned \<Rightarrow>
                (case scanAutoUpdates scanned of
                   None \<Rightarrow> (None, prevState, [ScanDependencies repo])
                 | Some auto \<Rightarrow>
                     if auto \<noteq> [] \<and> (autoMinor cfg \<or> autoPatch cfg)
                        \<and> eligible cfg auto \<noteq> [] \<and> \<not> truthy (pendingDepsPR prevState)
                     then (case createDependencyUpdatePR w (eligible cfg auto) of
                             Inl e \<Rightarrow>
                               (None, prevState,
                                [ScanDependencies repo,
                                 CreateDependencyUpdatePR repo (eligible cfg auto)])
                           | Inr None \<Rightarrow>
                               (None, prevState,
                                [ScanDependencies repo,
                                 CreateDependencyUpdatePR repo (eligible cfg auto)])
                           | Inr (Some pr) \<Rightarrow>
                               (None, prevState\<lparr>pendingDepsPR := Some (number pr)\<rparr>,
                                [ScanDependencies repo,
                                 CreateDependencyUpdatePR repo (eligible cfg auto),
                                 NotifyDependencyUpdate repo (number pr)]))
                     else (None, prevState, [ScanDependencies repo])))
      else (None, prevState, []))"

definition releaseStage ::
  "string \<Rightarrow> targetState \<Rightarrow> repoWorld \<Rightarrow> error option \<times> targetState \<times> call list" where
  "releaseStage repo prevState w =
     (case wRelease w of
        Inl e \<Rightarrow> (Some e, prevState, [IsReleaseNeeded repo])
      | Inr releaseCheck \<Rightarrow>
          if needed releaseCheck \<and> \<not> releaseNotified prevState
          then (None, prevState\<lparr>releaseNotified := True\<rparr>,
                [IsReleaseNeeded repo, ReleaseMayBeNeeded repo (reason releaseCheck)])
          else (None, prevState, [IsReleaseNeeded repo]))"

text \<open>
  \<^verbatim>\<open>const prevState = repoState.get(repoFullName) || {}\<close>: when the map has an entry,
  \<^verbatim>\<open>prevState\<close> is that very object, and an assignment to one of its properties changes
  the stored state at once, also when the \<^verbatim>\<open>try\<close> block is left by an error later.
  When the map has none, \<^verbatim>\<open>prevState\<close> is a fresh object, which reaches the map only
  through \<^verbatim>\<open>repoState.set\<close> at the end of the block.
\<close>

definition writeThrough ::
  "(string \<rightharpoonup> targetState) \<Rightarrow> string \<Rightarrow> targetState \<Rightarrow> (string \<rightharpoonup> targetState)" where
  "writeThrough repoState repo prevState =
     (case repoState repo of None \<Rightarrow> repoState | Some _ \<Rightarrow> repoState(repo \<mapsto> prevState))"

definition prevOf :: "(string \<rightharpoonup> targetState) \<Rightarrow> string \<Rightarrow> targetState" where
  "prevOf repoState repo = (case repoState repo of None \<Rightarrow> emptyState | Some p \<Rightarrow> p)"

definition checkRepo ::
  "daemonConfig \<Rightarrow> nat \<Rightarrow> (string \<rightharpoonup> targetState) \<Rightarrow> string \<Rightarrow> repoWorld
     \<Rightarrow> (string \<rightharpoonup> targetState) \<times> checkResult \<times> call list" where
  "checkRepo cfg count repoState repo w =
     (let prevState = prevOf repoState repo
      in case wStatus w of
           Inl e \<Rightarrow> (repoState, Failed e, [GetRepoStatus repo])
         | Inr status \<Rightarrow>
             (case buildStage repo prevState status w of
                (Some e, c1) \<Rightarrow> (repoState, Failed e, GetRepoStatus repo # c1)
              | (None, c1) \<Rightarrow>
                  (case depsStage cfg count repo prevState w of
                     (Some e, p1, c2) \<Rightarrow>
                       (writeThrough repoState repo p1, Failed e,
                        GetRepoStatus repo # c1 @ c2)
                   | (None, p1, c2) \<Rightarrow>
                       (case releaseStage repo p1 w of
                          (Some e, p2, c3) \<Rightarrow>
                            (writeThrough repoState repo p2, Failed e,
                             GetRepoStatus repo # c1 @ c2 @ c3)
                        | (None, p2, c3) \<Rightarrow>
                            (repoState(repo \<mapsto>
                               p2\<lparr>failedBuilds := Some (statusFailedBuilds status),
                                  lastCheck := Some (wNow w)\<rparr>),
                             Success status,
                             GetRepoStatus repo # c1 @ c2 @ c3)))))"

subsection \<open>runCheck\<close>

text \<open>
  \<^verbatim>\<open>runCheck\<close> is an async function started by the initial call and by every tick of
  the cron schedule. Between its start and each \<^verbatim>\<open>await checkRepo(repo)\<close> other
  activations may start. An \<open>activation\<close> is one started call that has not returned yet,
  with the repositories its loop still has to check. The daemon state holds the module
  variables, the activations in flight, and the calls made so far. What happens between
  two \<^verbatim>\<open>await\<close>s of \<^verbatim>\<open>runCheck\<close> is one step: one whole call of
  \<^verbatim>\<open>checkRepo\<close> with the answers it gets. The only other code that can run while
  \<^verbatim>\<open>checkRepo\<close> waits is the start of another activation, which reads and writes
  \<^verbatim>\<open>isRunning\<close> and \<^verbatim>\<open>checkCount\<close> only.
\<close>

record activation =
  remaining :: "string list"
  results :: "(string \<times> checkResult) list"
  startTime :: int

record daemon =
  isRunning :: bool
  checkCount :: nat
  lastCheckTime :: "int option"
  repoState :: "string \<rightharpoonup> targetState"
  activations :: "activation list"
  calls :: "call list"

definition initialDaemon :: daemon where
  "initialDaemon =
     \<lparr>isRunning = False, checkCount = 0, lastCheckTime = None, repoState = Map.empty,
      activations = [], calls = []\<rparr>"

text \<open>The start of \<^verbatim>\<open>runCheck\<close>, up to its first \<^verbatim>\<open>await\<close>.\<close>

definition runCheckStart :: "daemonConfig \<Rightarrow> int \<Rightarrow> daemon \<Rightarrow> daemon" where
  "runCheckStart cfg now d =
     (if isRunning d then d
      else (let d1 = d\<lparr>isRunning := True, checkCount := checkCount d + 1\<rparr>
            in if targetRepos cfg = []
               then d1\<lparr>lastCheckTime := Some now, isRunning := False\<rparr>
               else d1\<lparr>activations := activations d1 @
                         [\<lparr>remaining = targetRepos cfg, results = [], startTime = now\<rparr>]\<rparr>))"

text \<open>
  Activation \<open>i\<close> gets the answer of its pending \<^verbatim>\<open>checkRepo\<close> and goes on to the next
  \<^verbatim>\<open>await\<close>, or, after the last repository, to the end of \<^verbatim>\<open>runCheck\<close>.
\<close>

definition runCheckResume :: "daemonConfig \<Rightarrow> nat \<Rightarrow> repoWorld \<Rightarrow> daemon \<Rightarrow> daemon" where
  "runCheckResume cfg i w d =
     (if i < length (activations d)
      then (let a = activations d ! i
            in case remaining a of
                 [] \<Rightarrow> d
               | repo # rest \<Rightarrow>
                   (case checkRepo cfg (checkCount d) (repoState d) repo w of
                      (rs, result, cs) \<Rightarrow>
                        (let d1 = d\<lparr>repoState := rs, calls := calls d @ cs\<rparr>
                         in if rest = []
                            then d1\<lparr>lastCheckTime := Some (wNow w), isRunning := False,
                                    activations :=
                                      take i (activations d) @ drop (Suc i) (activations d)\<rparr>
                            else d1\<lparr>activations :=
                                      (activations d)
                                        [i := a\<lparr>remaining := rest,
                                                 results := results a @ [(repo, result)]\<rparr>]\<rparr>)))
      else d)"

datatype occurrence = Tick int | Resume nat repoWorld

fun daemonStep :: "daemonConfig \<Rightarrow> daemon \<Rightarrow> occurrence \<Rightarrow> daemon" where
  "daemonStep cfg d (Tick now) = runCheckStart cfg now d"
| "daemonStep cfg d (Resume i w) = runCheckResume cfg i w d"

definition runDaemon :: "daemonConfig \<Rightarrow> daemon \<Rightarrow> occurrence list \<Rightarrow> daemon" where
  "runDaemon cfg d os = foldl (daemonStep cfg) d os"

text \<open>
  A restart of the process: the module is loaded again, so every module variable has its
  initial value. The log of calls is kept, it is what the outside has seen.
\<close>

definition restart :: "daemon \<Rightarrow> daemon" where
  "restart d = initialDaemon\<lparr>calls := calls d\<rparr>"

subsection \<open>What the claims observe\<close>

text \<open>The failed-build count and the pending pull request stored for a repository.\<close>

definition storedFailedBuilds :: "(string \<rightharpoonup> targetState) \<Rightarrow> string \<Rightarrow> nat option" where
  "storedFailedBuilds rs repo = (case rs repo of None \<Rightarrow> None | Some p \<Rightarrow> failedBuilds p)"

definition storedPendingPR :: "(string \<rightharpoonup> targetState) \<Rightarrow> string \<Rightarrow> nat option" where
  "storedPendingPR rs repo = (case rs repo of None \<Rightarrow> None | Some p \<Rightarrow> pendingDepsPR p)"

text \<open>The calls of \<^verbatim>\<open>createDependencyUpdatePR\<close> made for a repository.\<close>

fun opensPR :: "string \<Rightarrow> call \<Rightarrow> bool" where
  "opensPR repo (CreateDependencyUpdatePR r ups) = (r = repo)"
| "opensPR repo c = False"

definition prsOpened :: "string \<Rightarrow> call list \<Rightarrow> call list" where
  "prsOpened repo cs = filter (opensPR repo) cs"

text \<open>
  What the daemon does about build failures of a repository: the request for the details
  of the failed builds and the notifications sent. And what it does about a release: the
  line it prints.
\<close>

fun isBuildReport :: "string \<Rightarrow> call \<Rightarrow> bool" where
  "isBuildReport repo (GetFailedBuildDetails r) = (r = repo)"
| "isBuildReport repo (NotifyBuildFailure r f) = (r = repo)"
| "isBuildReport repo c = False"

definition buildReports :: "string \<Rightarrow> call list \<Rightarrow> call list" where
  "buildReports repo cs = filter (isBuildReport repo) cs"

text \<open>
  What the build-failure branch of \<^verbatim>\<open>checkRepo\<close> does when it is entered: one
  request for the details, then a notification for each of the first three failures (none
  when the request throws).
\<close>

definition expectedBuildReports :: "string \<Rightarrow> repoWorld \<Rightarrow> call list" where
  "expectedBuildReports repo w =
     (case wFailures w of
        Inl e \<Rightarrow> [GetFailedBuildDetails repo]
      | Inr failures \<Rightarrow>
          GetFailedBuildDetails repo # map (NotifyBuildFailure repo) (take 3 failures))"

fun isReleaseReport :: "string \<Rightarrow> call \<Rightarrow> bool" where
  "isReleaseReport repo (ReleaseMayBeNeeded r x) = (r = repo)"
| "isReleaseReport repo c = False"

definition releaseReports :: "string \<Rightarrow> call list \<Rightarrow> call list" where
  "releaseReports repo cs = filter (isReleaseReport repo) cs"

text \<open>The calls of \<^verbatim>\<open>getFailedBuildDetails\<close> made for a repository.\<close>

definition buildAlarms :: "string \<Rightarrow> call list \<Rightarrow> nat" where
  "buildAlarms repo cs = length (filter (\<lambda>c. c = GetFailedBuildDetails repo) cs)"

text \<open>
  The state of the daemon between two occurrences: the flag is set exactly while an
  activation is in flight, there is at most one, and it still has a repository to check.
\<close>

definition oneCycle :: "daemon \<Rightarrow> bool" where
  "oneCycle d =
     (length (activations d) \<le> 1 \<and> (isRunning d = (activations d \<noteq> []))
      \<and> list_all (\<lambda>a. remaining a \<noteq> []) (activations d))"

text \<open>
  The whole program: the data directory and the memory of the daemon. A restart of the
  process keeps the first and resets the second.
\<close>

record process =
  disk :: fs
  memory :: daemon

definition restartProcess :: "process \<Rightarrow> process" where
  "restartProcess p = p\<lparr>memory := restart (memory p)\<rparr>"

section \<open>Concrete disks and inputs used below\<close>

definition damagedDisk :: fs where
  "damagedDisk = \<lparr>errorsFile = Unparseable, configFile = Missing, alertsFile = Unparseable\<rparr>"

definition noInput :: errorInput where
  "noInput =
     \<lparr>inSeverity = None, inSource = None, inMessage = None, inStack = None, inContext = None\<rparr>"

text \<open>An error \<^verbatim>\<open>{ severity: 'error', source: src, message: 'timeout' }\<close>.\<close>

definition errorFrom :: "string \<Rightarrow> errorInput" where
  "errorFrom src =
     \<lparr>inSeverity = Some ''error'', inSource = Some src, inMessage = Some ''timeout'',
      inStack = None, inContext = None\<rparr>"

text \<open>A log that is exactly full, and one with two entries.\<close>

definition fullDisk :: fs where
  "fullDisk =
     \<lparr>errorsFile = Content (replicate 1000 (makeEntry ''old'' 0 noInput)),
      configFile = Missing, alertsFile = Missing\<rparr>"

definition twoEventDisk :: fs where
  "twoEventDisk =
     \<lparr>errorsFile = Content [makeEntry ''e1'' 0 noInput, makeEntry ''e2'' 1 noInput],
      configFile = Missing, alertsFile = Missing\<rparr>"

text \<open>Two events with different fingerprints, the second one a minute younger.\<close>

definition tieDisk :: fs where
  "tieDisk =
     \<lparr>errorsFile = Content [makeEntry ''e1'' 0 (errorFrom ''api''),
                            makeEntry ''e2'' 60000 (errorFrom ''web'')],
      configFile = Missing, alertsFile = Missing\<rparr>"

text \<open>
  An empty data directory but for \<^verbatim>\<open>error-config.json\<close>, which holds
  \<^verbatim>\<open>{ "alertThreshold": 2 }\<close>.
\<close>

definition lowThresholdDisk :: fs where
  "lowThresholdDisk =
     \<lparr>errorsFile = Missing,
      configFile = Content
        \<lparr>jSources = None, jAlertThreshold = Some 2, jWindowMinutes = None,
         jSilenceMinutes = None, jSeverityFilter = None, jSlackWebhook = None,
         jEmailRecipients = None\<rparr>,
      alertsFile = Missing\<rparr>"

text \<open>Three errors from three sources logged one minute apart.\<close>

definition disk1 :: fs where
  "disk1 = fst (logError lowThresholdDisk ''e1'' 0 (errorFrom ''api''))"

definition disk2 :: fs where
  "disk2 = fst (logError disk1 ''e2'' 60000 (errorFrom ''web''))"

text \<open>The same directory with the first two of them in the log and no alert recorded.\<close>

definition gateDisk :: fs where
  "gateDisk =
     lowThresholdDisk
       \<lparr>errorsFile := Content [makeEntry ''e1'' 0 (errorFrom ''api''),
                               makeEntry ''e2'' 60000 (errorFrom ''web'')]\<rparr>"

section \<open>Concrete repositories and answers used below\<close>

definition oneRepo :: daemonConfig where
  "oneRepo = config [''o/r'']"

definition quietStatus :: repoStatus where
  "quietStatus = \<lparr>openPRs = 0, openIssues = 0, recentBuilds = 10, statusFailedBuilds = 0\<rparr>"

definition patchUpdate :: update where
  "patchUpdate = \<lparr>updateName = ''semver'', updateType = ''patch'', shouldAutoUpdate = True\<rparr>"

text \<open>GitHub does not answer at all.\<close>

definition wDown :: repoWorld where
  "wDown =
     \<lparr>wStatus = Inl (Error ''503''), wFailures = Inl (Error ''503''),
      wScan = Inl (Error ''503''), wCreatePR = Inl (Error ''503''),
      wRelease = Inl (Error ''503''), wNow = 0\<rparr>"

text \<open>
  No failed build, one patch update to apply, the pull request is created as number 7,
  and no release is needed.
\<close>

definition wUpdate :: repoWorld where
  "wUpdate =
     \<lparr>wStatus = Inr quietStatus, wFailures = Inr [],
      wScan = Inr (Some [patchUpdate]),
      wCreatePR = Inr \<lparr>number = 7, url = ''https://github.com/o/r/pull/7''\<rparr>,
      wRelease = Inr \<lparr>needed = False, reason = ''No new commits since last release''\<rparr>,
      wNow = 0\<rparr>"

text \<open>The same, but the request for the latest release fails.\<close>

definition wUpdateThenError :: repoWorld where
  "wUpdateThenError = wUpdate\<lparr>wRelease := Inl (Error ''503'')\<rparr>"

text \<open>Three failed builds (then seven), and a release is needed.\<close>

definition wFailing :: "nat \<Rightarrow> repoWorld" where
  "wFailing k =
     \<lparr>wStatus = Inr (quietStatus\<lparr>statusFailedBuilds := k\<rparr>),
      wFailures = Inr [\<lparr>failureRunId = 1, failureName = ''CI''\<rparr>],
      wScan = Inr None,
      wCreatePR = Inl (Error ''unused''),
      wRelease = Inr \<lparr>needed = True, reason = ''No previous releases''\<rparr>,
      wNow = 0\<rparr>"

text \<open>Three failed builds, and the request for the latest release fails.\<close>

definition wFailingThenError :: repoWorld where
  "wFailingThenError = (wFailing 3)\<lparr>wRelease := Inl (Error ''503'')\<rparr>"

text \<open>The stored state after one and after two polls that see three failed builds.\<close>

definition afterFirstPoll :: "string \<rightharpoonup> targetState" where
  "afterFirstPoll = fst (checkRepo oneRepo 1 Map.empty ''o/r'' (wFailing 3))"

definition afterSecondPoll :: "string \<rightharpoonup> targetState" where
  "afterSecondPoll = fst (checkRepo oneRepo 2 afterFirstPoll ''o/r'' (wFailing 3))"

text \<open>
  Three cycles in which GitHub is down; and a run in which the fourth and the eighth
  cycle get through up to the release request.
\<close>

definition outage :: "occurrence list" where
  "outage = [Tick 0, Resume 0 wDown, Tick 0, Resume 0 wDown, Tick 0, Resume 0 wDown]"

definition twoAttempts :: "occurrence list" where
  "twoAttempts =
     outage @ [Tick 0, Resume 0 wUpdateThenError] @ outage @ [Tick 0, Resume 0 wUpdateThenError]"

text \<open>The stored state after a poll that opened pull request 7, and a daemon holding it.\<close>

definition afterPR :: "string \<rightharpoonup> targetState" where
  "afterPR = fst (checkRepo oneRepo 4 Map.empty ''o/r'' wUpdate)"

definition dPending :: daemon where
  "dPending = initialDaemon\<lparr>checkCount := 7, repoState := afterPR\<rparr>"

definition exampleProcess :: process where
  "exampleProcess = \<lparr>disk = disk1, memory = dPending\<rparr>"

section \<open>Properties of the error monitor\<close>

subsection \<open>Keys and files\<close>

lemma set_createdKeys: "set (createdKeys seen ks) = set seen \<union> set ks"
  by (induction ks arbitrary: seen) auto

lemma set_ownKeys: "set (ownKeys ks) = set ks"
  by (auto simp: ownKeys_def)

lemma set_alertKeys: "set (alertKeys errors) = fingerprint ` set errors"
  by (simp add: alertKeys_def set_ownKeys set_createdKeys)

lemma recordAlert_errorsFile: "errorsFile (recordAlert f now fp) = errorsFile f"
  by (simp add: recordAlert_def Let_def)

lemma getLastAlert_recordAlert:
  "getLastAlert (recordAlert f now fp) fp' = (if fp' = fp then Some now else getLastAlert f fp')"
  by (simp add: recordAlert_def getLastAlert_def Let_def split: jsonFile.splits)

lemma foldl_recordAlert_errorsFile:
  "errorsFile (foldl (\<lambda>g fp. recordAlert g now fp) f ks) = errorsFile f"
  by (induction ks arbitrary: f) (simp_all add: recordAlert_errorsFile)

lemma getLastAlert_foldl_recordAlert:
  "getLastAlert (foldl (\<lambda>g fp. recordAlert g now fp) f ks) fp' =
     (if fp' \<in> set ks then Some now else getLastAlert f fp')"
  by (induction ks arbitrary: f) (auto simp: getLastAlert_recordAlert)

lemma checkAlertThreshold_errorsFile:
  "errorsFile (fst (checkAlertThreshold f now e)) = errorsFile f"
  by (simp add: checkAlertThreshold_def Let_def triggerAlert_def foldl_recordAlert_errorsFile
      split: option.splits)

lemma logError_errorsFile:
  "errorsFile (fst (logError f newId now error)) =
     Content (sliceLast 1000 (loadErrors f @ [makeEntry newId now error]))"
  by (simp add: logError_def Let_def split_beta checkAlertThreshold_errorsFile saveErrors_def)

subsection \<open>Missing and damaged files\<close>

text \<open>
  Claim C10. A file that is missing or cannot be parsed makes no load operation fail:
  \<^verbatim>\<open>loadErrors\<close> returns the empty list, \<^verbatim>\<open>getLastAlert\<close> returns nothing and
  \<^verbatim>\<open>loadErrorConfig\<close> returns the built-in defaults. The history is then lost without
  any error: the next \<^verbatim>\<open>logError\<close> writes a log that holds the new entry alone, and the
  next \<^verbatim>\<open>recordAlert\<close> writes a mapping that holds the new alert alone.
\<close>

theorem damaged_files_load_as_empty:
  "(errorsFile f = Missing \<or> errorsFile f = Unparseable \<longrightarrow>
      loadErrors f = []
      \<and> errorsFile (fst (logError f newId now error)) = Content [makeEntry newId now error])
   \<and> (alertsFile f = Missing \<or> alertsFile f = Unparseable \<longrightarrow>
      getLastAlert f fp = None
      \<and> alertsFile (recordAlert f now fp) = Content [fp \<mapsto> now])
   \<and> (configFile f = Missing \<or> configFile f = Unparseable \<longrightarrow>
      loadErrorConfig f = defaults)"
proof (intro conjI impI)
  assume "errorsFile f = Missing \<or> errorsFile f = Unparseable"
  then show e: "loadErrors f = []" by (auto simp: loadErrors_def)
  show "errorsFile (fst (logError f newId now error)) = Content [makeEntry newId now error]"
    by (simp add: logError_errorsFile e sliceLast_def)
next
  assume a: "alertsFile f = Missing \<or> alertsFile f = Unparseable"
  then show "getLastAlert f fp = None" by (auto simp: getLastAlert_def)
  from a show "alertsFile (recordAlert f now fp) = Content [fp \<mapsto> now]"
    by (auto simp: recordAlert_def)
next
  assume "configFile f = Missing \<or> configFile f = Unparseable"
  then show "loadErrorConfig f = defaults" by (auto simp: loadErrorConfig_def)
qed

theorem damaged_files_load_as_empty_witness:
  "errorsFile damagedDisk = Unparseable \<and> alertsFile damagedDisk = Unparseable
   \<and> configFile damagedDisk = Missing
   \<and> loadErrors damagedDisk = []
   \<and> getLastAlert damagedDisk ''YXBpfHRpbWVvdXR8'' = None
   \<and> alertsFile (recordAlert damagedDisk 5 ''YXBpfHRpbWVvdXR8'')
       = Content [''YXBpfHRpbWVvdXR8'' \<mapsto> 5]
   \<and> loadErrorConfig damagedDisk = defaults"
  using damaged_files_load_as_empty
    [where f = damagedDisk and now = 5 and fp = "''YXBpfHRpbWVvdXR8''"]
  by (simp add: damagedDisk_def)

subsection \<open>Evaluating the concrete inputs\<close>

lemmas eval_defs = generateFingerprint_def orElse_def base64_def b64char_def b64alphabet_def
  errorFrom_def makeEntry_def

lemma fp_api: "generateFingerprint (errorFrom ''api'') = ''YXBpfHRpbWVvdXR8''"
  by (simp add: eval_defs)
lemma fp_web: "generateFingerprint (errorFrom ''web'') = ''d2VifHRpbWVvdXR8''"
  by (simp add: eval_defs)
lemma fp_db: "generateFingerprint (errorFrom ''db'') = ''ZGJ8dGltZW91dHxl''"
  by (simp add: eval_defs)

lemma not_index: "\<not> isArrayIndex ''YXBpfHRpbWVvdXR8''" "\<not> isArrayIndex ''d2VifHRpbWVvdXR8''"
   "\<not> isArrayIndex ''ZGJ8dGltZW91dHxl''"
  by (simp_all add: isArrayIndex_def isDigit_def)

lemma entry_simps:
  "fingerprint (makeEntry i t e) = generateFingerprint e"
  "timestamp (makeEntry i t e) = t"
  "severity (makeEntry i t e) = orElse (inSeverity e) ''error''"
  by (simp_all add: makeEntry_def)

lemma sev: "orElse (inSeverity (errorFrom s)) ''error'' = ''error''"
  by (simp add: errorFrom_def orElse_def)

lemmas summary_defs = getErrorSummary_def topOf_def sortByCountDesc_def countEntries_def
  summaryFiltered_def filterIf_def defaultOptions_def ownKeys_def loadErrors_def Let_def

lemmas run_defs = logError_def checkAlertThreshold_def triggerAlert_def alertKeys_def ownKeys_def
  recentErrors_def loadErrors_def loadErrorConfig_def mergeConfig_def override_def defaults_def
  saveErrors_def sliceLast_def getLastAlert_def recordAlert_def alertLineFor_def Let_def

lemma disk1_eq:
  "disk1 = lowThresholdDisk\<lparr>errorsFile := Content [makeEntry ''e1'' 0 (errorFrom ''api'')]\<rparr>"
  by (simp add: disk1_def run_defs lowThresholdDisk_def entry_simps sev)

lemma step2:
  "logError disk1 ''e2'' 60000 (errorFrom ''web'') =
     (lowThresholdDisk
        \<lparr>errorsFile := Content [makeEntry ''e1'' 0 (errorFrom ''api''),
                                 makeEntry ''e2'' 60000 (errorFrom ''web'')],
         alertsFile := Content [''YXBpfHRpbWVvdXR8'' \<mapsto> 60000, ''d2VifHRpbWVvdXR8'' \<mapsto> 60000]\<rparr>,
      makeEntry ''e2'' 60000 (errorFrom ''web''),
      [\<lparr>alertFp = ''YXBpfHRpbWVvdXR8'',
         alertSample = Some (makeEntry ''e1'' 0 (errorFrom ''api'')), alertCount = 1\<rparr>,
       \<lparr>alertFp = ''d2VifHRpbWVvdXR8'',
         alertSample = Some (makeEntry ''e2'' 60000 (errorFrom ''web'')), alertCount = 1\<rparr>])"
  by (simp add: disk1_eq run_defs lowThresholdDisk_def entry_simps sev fp_api fp_web not_index)

lemma disk2_eq:
  "disk2 = lowThresholdDisk
        \<lparr>errorsFile := Content [makeEntry ''e1'' 0 (errorFrom ''api''),
                                 makeEntry ''e2'' 60000 (errorFrom ''web'')],
         alertsFile := Content [''YXBpfHRpbWVvdXR8'' \<mapsto> 60000, ''d2VifHRpbWVvdXR8'' \<mapsto> 60000]\<rparr>"
  by (simp add: disk2_def step2)

lemma step3:
  "map alertFp (snd (snd (logError disk2 ''e3'' 120000 (errorFrom ''db''))))
     = [''YXBpfHRpbWVvdXR8'', ''d2VifHRpbWVvdXR8'', ''ZGJ8dGltZW91dHxl'']"
  by (simp add: disk2_eq run_defs lowThresholdDisk_def entry_simps sev fp_api fp_web fp_db not_index)

subsection \<open>Retention of the event log\<close>

lemma length_sliceLast: "length (sliceLast n xs) \<le> n"
  by (simp add: sliceLast_def)

lemma suffix_sliceLast: "suffix (sliceLast n xs) xs"
  by (simp add: sliceLast_def suffix_drop)

lemma loadErrors_saveErrors: "loadErrors (saveErrors f es) = sliceLast 1000 es"
  by (simp add: loadErrors_def saveErrors_def)

lemma loadErrors_logError:
  "loadErrors (fst (logError f newId now error)) =
     sliceLast 1000 (loadErrors f @ [makeEntry newId now error])"
  by (simp add: loadErrors_def logError_errorsFile)

lemma loadErrors_Content: "errorsFile f = Content es \<Longrightarrow> loadErrors f = es"
  by (simp add: loadErrors_def)

lemma markFirst_None: "markFirst i now es = None \<longleftrightarrow> i \<notin> eid ` set es"
  by (induction es) (auto simp: Let_def split: option.splits)

lemma markFirst_Some:
  "markFirst i now es = Some (es', e) \<Longrightarrow> map eid es' = map eid es \<and> length es' = length es"
  by (induction es arbitrary: es') (auto simp: Let_def split: option.splits if_splits)

text \<open>
  Claim C7, as amended. After \<^verbatim>\<open>logError\<close> the persisted log is the last 1000 entries
  of the old log followed by the new entry: at most 1000 entries, a suffix of that list,
  so what is dropped is the oldest entries and nothing in between. After
  \<^verbatim>\<open>acknowledgeError\<close> of an identifier that is present, the persisted log is the last
  1000 entries of the old log with that one entry marked (no entry added or removed before
  the cut); for an identifier that is absent, nothing is written. The bound 1000 is a
  constant of \<^verbatim>\<open>saveErrors\<close>.
\<close>

theorem retention_last_1000:
  "loadErrors (fst (logError f newId now error))
     = sliceLast 1000 (loadErrors f @ [makeEntry newId now error])
   \<and> length (loadErrors (fst (logError f newId now error))) \<le> 1000
   \<and> suffix (loadErrors (fst (logError f newId now error)))
        (loadErrors f @ [makeEntry newId now error])
   \<and> (case acknowledgeError f now errorId of
        (f', None) \<Rightarrow> f' = f \<and> errorId \<notin> eid ` set (loadErrors f)
      | (f', Some e) \<Rightarrow>
          (\<exists>es'. markFirst errorId now (loadErrors f) = Some (es', e)
             \<and> map eid es' = map eid (loadErrors f)
             \<and> loadErrors f' = sliceLast 1000 es'
             \<and> length (loadErrors f') \<le> 1000
             \<and> suffix (loadErrors f') es'))"
proof (intro conjI)
  show "loadErrors (fst (logError f newId now error))
     = sliceLast 1000 (loadErrors f @ [makeEntry newId now error])"
    by (rule loadErrors_logError)
  show "length (loadErrors (fst (logError f newId now error))) \<le> 1000"
    by (simp add: loadErrors_logError length_sliceLast)
  show "suffix (loadErrors (fst (logError f newId now error)))
        (loadErrors f @ [makeEntry newId now error])"
    by (simp only: loadErrors_logError suffix_sliceLast)
  show "case acknowledgeError f now errorId of
        (f', None) \<Rightarrow> f' = f \<and> errorId \<notin> eid ` set (loadErrors f)
      | (f', Some e) \<Rightarrow>
          (\<exists>es'. markFirst errorId now (loadErrors f) = Some (es', e)
             \<and> map eid es' = map eid (loadErrors f)
             \<and> loadErrors f' = sliceLast 1000 es'
             \<and> length (loadErrors f') \<le> 1000
             \<and> suffix (loadErrors f') es')"
  proof (cases "markFirst errorId now (loadErrors f)")
    case None
    then have "errorId \<notin> eid ` set (loadErrors f)" by (simp add: markFirst_None)
    with None show ?thesis by (simp add: acknowledgeError_def)
  next
    case (Some p)
    obtain es' e where p: "p = (es', e)" by (cases p)
    from Some p markFirst_Some [of errorId now "loadErrors f" es' e]
    show ?thesis
      by (simp add: acknowledgeError_def loadErrors_saveErrors length_sliceLast suffix_sliceLast)
  qed
qed

theorem retention_last_1000_witness:
  "loadErrors (fst (logError fullDisk ''new'' 7 noInput))
     = replicate 999 (makeEntry ''old'' 0 noInput) @ [makeEntry ''new'' 7 noInput]
   \<and> length (loadErrors (fst (logError fullDisk ''new'' 7 noInput))) \<le> 1000"
  using retention_last_1000 [where f = fullDisk and newId = "''new''" and now = 7 and error = noInput]
  by (simp add: loadErrors_Content fullDisk_def noInput_def sliceLast_def)

text \<open>
  The claim as stated says the bound can be configured. No content of
  \<^verbatim>\<open>error-config.json\<close> makes a log of three entries shrink to two.
\<close>

theorem retention_not_configurable:
  "\<not> (\<exists>c. length (loadErrors (fst (logError (twoEventDisk\<lparr>configFile := c\<rparr>) ''e3'' 2 noInput))) \<le> 2)"
  by (simp add: loadErrors_logError loadErrors_Content twoEventDisk_def sliceLast_def)

subsection \<open>The most frequent fingerprints\<close>

lemma sorted_sortByCountDesc:
  "sorted_wrt (\<lambda>a b. snd a \<ge> snd b) (sortByCountDesc entries)"
proof -
  have "sorted (map (\<lambda>p. - int (snd p)) (sortByCountDesc entries))"
    by (simp add: sortByCountDesc_def)
  then show ?thesis
    by (simp add: sorted_map sorted_wrt_iff_nth_less)
qed

lemma stable_sortByCountDesc:
  "filter (\<lambda>p. snd p = k) (sortByCountDesc entries) = filter (\<lambda>p. snd p = k) entries"
proof -
  have "filter (\<lambda>p. - int (snd p) = - int k) (sort_key (\<lambda>p. - int (snd p)) entries)
        = filter (\<lambda>p. - int (snd p) = - int k) entries"
    by (rule sort_key_stable)
  then show ?thesis by (simp add: sortByCountDesc_def)
qed

lemma set_sortByCountDesc: "set (sortByCountDesc entries) = set entries"
  by (simp add: sortByCountDesc_def)

lemma countEntries_count:
  "(k, c) \<in> set (countEntries field es) \<Longrightarrow> c = length (filter (\<lambda>e. field e = k) es)"
  by (auto simp: countEntries_def)

lemma topErrors_getErrorSummary:
  "topErrors (getErrorSummary f now options) = topOf (summaryFiltered options now (loadErrors f))"
  by (simp add: getErrorSummary_def Let_def)

lemma length_topOf: "length (topOf filtered) \<le> 5"
  by (simp add: topOf_def)

lemma sorted_topOf: "sorted_wrt (\<lambda>a b. topCount a \<ge> topCount b) (topOf filtered)"
proof -
  have "sorted_wrt (\<lambda>a b. snd a \<ge> snd b)
          (take 5 (sortByCountDesc (countEntries fingerprint filtered)))"
    using sorted_sortByCountDesc sorted_wrt_take by blast
  then show ?thesis by (simp add: topOf_def sorted_wrt_map)
qed

lemma counts_topOf:
  "t \<in> set (topOf filtered) \<Longrightarrow>
     topCount t = length (filter (\<lambda>e. fingerprint e = topFingerprint t) filtered)"
proof -
  assume "t \<in> set (topOf filtered)"
  then obtain p where p: "p \<in> set (take 5 (sortByCountDesc (countEntries fingerprint filtered)))"
    and t: "topFingerprint t = fst p" "topCount t = snd p"
    by (auto simp: topOf_def)
  from p have "p \<in> set (countEntries fingerprint filtered)"
    using set_sortByCountDesc in_set_takeD by fastforce
  then have "snd p = length (filter (\<lambda>e. fingerprint e = fst p) filtered)"
    using countEntries_count [of "fst p" "snd p"] by simp
  with t show ?thesis by simp
qed

lemma ties_topOf:
  "prefix (map topFingerprint (filter (\<lambda>t. topCount t = k) (topOf filtered)))
          (map fst (filter (\<lambda>p. snd p = k) (countEntries fingerprint filtered)))"
proof -
  let ?es = "countEntries fingerprint filtered"
  have "prefix (filter (\<lambda>p. snd p = k) (take 5 (sortByCountDesc ?es)))
               (filter (\<lambda>p. snd p = k) (sortByCountDesc ?es))"
    by (rule filter_mono_prefix) (rule take_is_prefix)
  then have "prefix (map fst (filter (\<lambda>p. snd p = k) (take 5 (sortByCountDesc ?es))))
               (map fst (filter (\<lambda>p. snd p = k) ?es))"
    by (simp add: stable_sortByCountDesc map_mono_prefix)
  moreover have "map topFingerprint (filter (\<lambda>t. topCount t = k) (topOf filtered))
      = map fst (filter (\<lambda>p. snd p = k) (take 5 (sortByCountDesc ?es)))"
    by (simp add: topOf_def filter_map comp_def)
  ultimately show ?thesis by simp
qed

lemma ownKeys_no_index: "\<forall>k \<in> set ks. \<not> isArrayIndex k \<Longrightarrow> ownKeys ks = ks"
  by (simp add: ownKeys_def filter_empty_conv filter_id_conv)

lemma keys_countEntries: "map fst (countEntries field es) = ownKeys (createdKeys [] (map field es))"
  by (simp add: countEntries_def comp_def)

text \<open>
  Claim C9, as amended. The list \<^verbatim>\<open>topErrors\<close> of the summary has at most five
  entries, is sorted by count in descending order, and every count is the number of
  filtered events with that fingerprint. Entries with equal counts keep the order in which
  \<^verbatim>\<open>Object.entries\<close> enumerates the counting object; when no fingerprint is an array
  index, that is the order in which the fingerprints first occur among the filtered events.
\<close>

theorem topErrors_sorted_ties_in_key_order:
  "length (topErrors (getErrorSummary f now options)) \<le> 5
   \<and> sorted_wrt (\<lambda>a b. topCount a \<ge> topCount b) (topErrors (getErrorSummary f now options))
   \<and> (\<forall>t \<in> set (topErrors (getErrorSummary f now options)).
        topCount t = length (filter (\<lambda>e. fingerprint e = topFingerprint t)
                               (summaryFiltered options now (loadErrors f))))
   \<and> (\<forall>k. prefix
        (map topFingerprint (filter (\<lambda>t. topCount t = k) (topErrors (getErrorSummary f now options))))
        (map fst (filter (\<lambda>p. snd p = k)
           (countEntries fingerprint (summaryFiltered options now (loadErrors f))))))
   \<and> ((\<forall>e \<in> set (summaryFiltered options now (loadErrors f)). \<not> isArrayIndex (fingerprint e)) \<longrightarrow>
        map fst (countEntries fingerprint (summaryFiltered options now (loadErrors f)))
          = createdKeys [] (map fingerprint (summaryFiltered options now (loadErrors f))))"
proof (intro conjI allI ballI impI)
  show "length (topErrors (getErrorSummary f now options)) \<le> 5"
    by (simp add: topErrors_getErrorSummary length_topOf)
  show "sorted_wrt (\<lambda>a b. topCount a \<ge> topCount b) (topErrors (getErrorSummary f now options))"
    by (simp only: topErrors_getErrorSummary sorted_topOf)
next
  fix t assume "t \<in> set (topErrors (getErrorSummary f now options))"
  then show "topCount t = length (filter (\<lambda>e. fingerprint e = topFingerprint t)
                               (summaryFiltered options now (loadErrors f)))"
    by (simp add: topErrors_getErrorSummary counts_topOf)
next
  fix k
  show "prefix
        (map topFingerprint (filter (\<lambda>t. topCount t = k) (topErrors (getErrorSummary f now options))))
        (map fst (filter (\<lambda>p. snd p = k)
           (countEntries fingerprint (summaryFiltered options now (loadErrors f)))))"
    by (simp only: topErrors_getErrorSummary ties_topOf)
next
  assume "\<forall>e \<in> set (summaryFiltered options now (loadErrors f)). \<not> isArrayIndex (fingerprint e)"
  then show "map fst (countEntries fingerprint (summaryFiltered options now (loadErrors f)))
          = createdKeys [] (map fingerprint (summaryFiltered options now (loadErrors f)))"
    by (simp add: keys_countEntries ownKeys_no_index set_createdKeys)
qed

theorem topErrors_sorted_ties_in_key_order_witness:
  "length (topErrors (getErrorSummary tieDisk 120000 defaultOptions)) \<le> 5
   \<and> sorted_wrt (\<lambda>a b. topCount a \<ge> topCount b)
        (topErrors (getErrorSummary tieDisk 120000 defaultOptions))"
  using topErrors_sorted_ties_in_key_order
    [where f = tieDisk and now = 120000 and options = defaultOptions]
  by blast

text \<open>
  The claim as stated puts the fingerprint with the most recent event first among equal
  counts. With one event per fingerprint, the older fingerprint comes first.
\<close>

theorem ties_keep_first_seen_order:
  "map (\<lambda>t. (topFingerprint t, topCount t, map_option timestamp (topSample t)))
     (topErrors (getErrorSummary tieDisk 120000 defaultOptions))
   = [(''YXBpfHRpbWVvdXR8'', 1, Some 0), (''d2VifHRpbWVvdXR8'', 1, Some 60000)]"
  by (simp add: summary_defs tieDisk_def entry_simps fp_api fp_web not_index)

subsection \<open>The alert gate\<close>

lemma alertFp_triggerAlert:
  "alertFp ` set (snd (triggerAlert f now errors)) = fingerprint ` set errors"
  by (simp add: triggerAlert_def image_image alertLineFor_def set_alertKeys)

lemma getLastAlert_triggerAlert:
  "getLastAlert (fst (triggerAlert f now errors)) fp =
     (if fp \<in> fingerprint ` set errors then Some now else getLastAlert f fp)"
  by (simp add: triggerAlert_def getLastAlert_foldl_recordAlert set_alertKeys)

text \<open>
  Claim C2, as amended. \<^verbatim>\<open>checkAlertThreshold\<close> alerts for the fingerprint of the
  event just logged exactly when that fingerprint occurs among the events of the trailing
  window that pass the severity filter, the number of all those events (of every
  fingerprint together) has reached \<^verbatim>\<open>alertThreshold\<close>, and either there is no
  last-alert timestamp for that fingerprint or more than \<^verbatim>\<open>silenceMinutes\<close> have
  passed since it. The alert is then recorded for that fingerprint with the current time.
\<close>

theorem gate_fires_on_total_count:
  "(fingerprint newError \<in> alertFp ` set (snd (checkAlertThreshold f now newError))) =
     (fingerprint newError
        \<in> fingerprint ` set (recentErrors (loadErrorConfig f) now (loadErrors f))
      \<and> int (length (recentErrors (loadErrorConfig f) now (loadErrors f)))
          \<ge> alertThreshold (loadErrorConfig f)
      \<and> (case getLastAlert f (fingerprint newError) of
            None \<Rightarrow> True
          | Some lastAlert \<Rightarrow> now - lastAlert > silenceMinutes (loadErrorConfig f) * 60 * 1000))
   \<and> (fingerprint newError \<in> alertFp ` set (snd (checkAlertThreshold f now newError)) \<longrightarrow>
        getLastAlert (fst (checkAlertThreshold f now newError)) (fingerprint newError) = Some now)"
  by (simp add: checkAlertThreshold_def Let_def alertFp_triggerAlert getLastAlert_triggerAlert
        split: option.splits)

theorem gate_fires_on_total_count_witness:
  "''d2VifHRpbWVvdXR8''
     \<in> alertFp ` set (snd (checkAlertThreshold gateDisk 60000 (makeEntry ''e2'' 60000 (errorFrom ''web''))))
   \<and> getLastAlert (fst (checkAlertThreshold gateDisk 60000 (makeEntry ''e2'' 60000 (errorFrom ''web''))))
        ''d2VifHRpbWVvdXR8'' = Some 60000"
  using gate_fires_on_total_count
    [where f = gateDisk and now = 60000 and newError = "makeEntry ''e2'' 60000 (errorFrom ''web'')"]
  by (simp add: gateDisk_def lowThresholdDisk_def recentErrors_def loadErrors_def
        loadErrorConfig_def mergeConfig_def override_def defaults_def getLastAlert_def
        entry_simps sev fp_api fp_web)

text \<open>
  The claim as stated counts the events of the one fingerprint. With a threshold of two,
  an alert fires for a fingerprint that has a single event in the window.
\<close>

theorem gate_fires_below_fingerprint_count:
  "map alertFp (snd (snd (logError disk1 ''e2'' 60000 (errorFrom ''web''))))
     = [''YXBpfHRpbWVvdXR8'', ''d2VifHRpbWVvdXR8'']
   \<and> length (filter (\<lambda>e. fingerprint e = ''d2VifHRpbWVvdXR8'')
        (recentErrors (loadErrorConfig disk2) 60000 (loadErrors disk2))) = 1
   \<and> alertThreshold (loadErrorConfig disk2) = 2"
  by (simp add: step2) (simp add: disk2_eq lowThresholdDisk_def recentErrors_def loadErrors_def
        loadErrorConfig_def mergeConfig_def override_def defaults_def
        entry_simps sev fp_api fp_web)

text \<open>
  Claim C1 says that after an alert for a fingerprint no further alert for it fires within
  \<^verbatim>\<open>silenceMinutes\<close>. \<^verbatim>\<open>checkAlertThreshold\<close> looks up the last alert of the
  logged event's fingerprint only, and \<^verbatim>\<open>triggerAlert\<close> then alerts for every
  fingerprint in the window. With a threshold of two and three errors from three sources
  logged one minute apart, the fingerprint of the first error is alerted at minute one and
  again at minute two, inside its silence period of fifteen minutes.
\<close>

theorem silence_skipped_for_other_fingerprints:
  "map alertFp (snd (snd (logError disk1 ''e2'' 60000 (errorFrom ''web''))))
     = [''YXBpfHRpbWVvdXR8'', ''d2VifHRpbWVvdXR8'']
   \<and> getLastAlert disk2 ''YXBpfHRpbWVvdXR8'' = Some 60000
   \<and> map alertFp (snd (snd (logError disk2 ''e3'' 120000 (errorFrom ''db''))))
     = [''YXBpfHRpbWVvdXR8'', ''d2VifHRpbWVvdXR8'', ''ZGJ8dGltZW91dHxl'']
   \<and> 120000 - 60000 \<le> silenceMinutes (loadErrorConfig disk2) * 60 * 1000"
  by (simp add: step2 step3) (simp add: disk2_eq lowThresholdDisk_def getLastAlert_def
        loadErrorConfig_def mergeConfig_def override_def defaults_def)

section \<open>Properties of the daemon\<close>

subsection \<open>The stages of checkRepo\<close>

lemma buildStage_detects:
  "(GetFailedBuildDetails repo \<in> set (snd (buildStage repo p status w))) =
     (statusFailedBuilds status > 0 \<and> Some (statusFailedBuilds status) \<noteq> failedBuilds p)"
  by (auto simp: buildStage_def split: sum.splits)

lemma buildStage_no_release: "ReleaseMayBeNeeded r x \<notin> set (snd (buildStage repo p status w))"
  by (auto simp: buildStage_def split: sum.splits)

lemma depsStage_calls:
  "GetFailedBuildDetails r \<notin> set (snd (snd (depsStage cfg n repo p w)))"
  "ReleaseMayBeNeeded r x \<notin> set (snd (snd (depsStage cfg n repo p w)))"
  by (auto simp: depsStage_def split: sum.splits option.splits)

lemma depsStage_state:
  "failedBuilds (fst (snd (depsStage cfg n repo p w))) = failedBuilds p"
  "releaseNotified (fst (snd (depsStage cfg n repo p w))) = releaseNotified p"
  by (auto simp: depsStage_def split: sum.splits option.splits)

lemma depsStage_off: "n mod 4 \<noteq> 0 \<Longrightarrow> depsStage cfg n repo p w = (None, p, [])"
  by (simp add: depsStage_def)

lemma depsStage_pending:
  "truthy (pendingDepsPR p) \<Longrightarrow>
     fst (snd (depsStage cfg n repo p w)) = p
     \<and> CreateDependencyUpdatePR r x \<notin> set (snd (snd (depsStage cfg n repo p w)))"
  by (auto simp: depsStage_def split: sum.splits option.splits)

lemma releaseStage_calls:
  "GetFailedBuildDetails r \<notin> set (snd (snd (releaseStage repo p w)))"
  "CreateDependencyUpdatePR r x \<notin> set (snd (snd (releaseStage repo p w)))"
  by (auto simp: releaseStage_def split: sum.splits)

lemma releaseStage_state:
  "failedBuilds (fst (snd (releaseStage repo p w))) = failedBuilds p"
  "pendingDepsPR (fst (snd (releaseStage repo p w))) = pendingDepsPR p"
  by (auto simp: releaseStage_def split: sum.splits)

lemma releaseStage_detects:
  "wRelease w = Inr rc \<Longrightarrow>
     (ReleaseMayBeNeeded repo (reason rc) \<in> set (snd (snd (releaseStage repo p w))))
       = (needed rc \<and> \<not> releaseNotified p)"
  by (auto simp: releaseStage_def)

lemma checkRepo_success:
  assumes "checkRepo cfg n rs repo w = (rsA, Success status, cs)"
  shows "wStatus w = Inr status"
    and "fst (buildStage repo (prevOf rs repo) status w) = None"
    and "fst (depsStage cfg n repo (prevOf rs repo) w) = None"
    and "fst (releaseStage repo (fst (snd (depsStage cfg n repo (prevOf rs repo) w))) w) = None"
    and "rsA = rs(repo \<mapsto> (fst (snd (releaseStage repo (fst (snd (depsStage cfg n repo (prevOf rs repo) w))) w)))
            \<lparr>failedBuilds := Some (statusFailedBuilds status), lastCheck := Some (wNow w)\<rparr>)"
    and "cs = GetRepoStatus repo # snd (buildStage repo (prevOf rs repo) status w)
            @ snd (snd (depsStage cfg n repo (prevOf rs repo) w))
            @ snd (snd (releaseStage repo (fst (snd (depsStage cfg n repo (prevOf rs repo) w))) w))"
  using assms
  by (auto simp: checkRepo_def Let_def split: sum.splits prod.splits option.splits)

lemma checkRepo_calls:
  "wStatus w = Inr status \<Longrightarrow>
   \<exists>c2 c3. snd (snd (checkRepo cfg n rs repo w)) =
       GetRepoStatus repo # snd (buildStage repo (prevOf rs repo) status w) @ c2 @ c3
     \<and> (c2 = [] \<or> c2 = snd (snd (depsStage cfg n repo (prevOf rs repo) w)))
     \<and> (c3 = [] \<or> c3 = snd (snd (releaseStage repo (fst (snd (depsStage cfg n repo (prevOf rs repo) w))) w)))"
  by (auto simp: checkRepo_def Let_def split: sum.splits prod.splits option.splits)

lemma checkRepo_stages:
  "wStatus w = Inr status \<Longrightarrow>
   buildStage repo (prevOf rs repo) status w = (None, c1) \<Longrightarrow>
   depsStage cfg n repo (prevOf rs repo) w = (None, p1, c2) \<Longrightarrow>
   releaseStage repo p1 w = (None, p2, c3) \<Longrightarrow>
   checkRepo cfg n rs repo w =
     (rs(repo \<mapsto> p2\<lparr>failedBuilds := Some (statusFailedBuilds status),
                      lastCheck := Some (wNow w)\<rparr>),
      Success status, GetRepoStatus repo # c1 @ c2 @ c3)"
  by (simp add: checkRepo_def Let_def)

lemma failedBuilds_prevOf: "failedBuilds (prevOf rs repo) = storedFailedBuilds rs repo"
  by (simp add: prevOf_def storedFailedBuilds_def emptyState_def split: option.splits)

lemma checkRepo_detects:
  assumes "wStatus w = Inr status"
  shows "(GetFailedBuildDetails repo \<in> set (snd (snd (checkRepo cfg n rs repo w)))) =
     (statusFailedBuilds status > 0
      \<and> Some (statusFailedBuilds status) \<noteq> storedFailedBuilds rs repo)"
proof -
  from checkRepo_calls [OF assms, of cfg n rs repo]
  obtain c2 c3 where cs: "snd (snd (checkRepo cfg n rs repo w)) =
       GetRepoStatus repo # snd (buildStage repo (prevOf rs repo) status w) @ c2 @ c3"
    and c2: "c2 = [] \<or> c2 = snd (snd (depsStage cfg n repo (prevOf rs repo) w))"
    and c3: "c3 = [] \<or> c3 = snd (snd (releaseStage repo
                (fst (snd (depsStage cfg n repo (prevOf rs repo) w))) w))"
    by blast
  from c2 have nB: "GetFailedBuildDetails repo \<notin> set c2"
    using depsStage_calls(1) by fastforce
  from c3 have n3: "GetFailedBuildDetails repo \<notin> set c3"
    using releaseStage_calls(1) by fastforce
  show ?thesis
    by (simp add: cs nB n3 buildStage_detects failedBuilds_prevOf)
qed

lemma checkRepo_stores_count:
  assumes "checkRepo cfg n rs repo w = (rsA, Success status, cs)"
  shows "storedFailedBuilds rsA repo = Some (statusFailedBuilds status)"
  using checkRepo_success(5) [OF assms] by (simp add: storedFailedBuilds_def)

subsection \<open>Evaluating the concrete polls\<close>

lemmas daemon_defs = checkRepo_def prevOf_def buildStage_def depsStage_def releaseStage_def
  writeThrough_def emptyState_def scanAutoUpdates_def eligible_def createDependencyUpdatePR_def
  truthy_def config_def oneRepo_def Let_def

lemmas world_defs = wFailing_def wDown_def wUpdate_def wUpdateThenError_def quietStatus_def
  patchUpdate_def

lemma poll1:
  "checkRepo oneRepo 1 Map.empty ''o/r'' (wFailing 3) =
     ([''o/r'' \<mapsto> \<lparr>failedBuilds = Some 3, pendingDepsPR = None, releaseNotified = True,
                      lastCheck = Some 0\<rparr>],
      Success (quietStatus\<lparr>statusFailedBuilds := 3\<rparr>),
      [GetRepoStatus ''o/r'', GetFailedBuildDetails ''o/r'',
       NotifyBuildFailure ''o/r'' \<lparr>failureRunId = 1, failureName = ''CI''\<rparr>,
       IsReleaseNeeded ''o/r'', ReleaseMayBeNeeded ''o/r'' ''No previous releases''])"
  by (simp add: daemon_defs world_defs)

lemma poll2:
  "checkRepo oneRepo 2 afterFirstPoll ''o/r'' (wFailing 3) =
     ([''o/r'' \<mapsto> \<lparr>failedBuilds = Some 3, pendingDepsPR = None, releaseNotified = True,
                      lastCheck = Some 0\<rparr>],
      Success (quietStatus\<lparr>statusFailedBuilds := 3\<rparr>),
      [GetRepoStatus ''o/r'', IsReleaseNeeded ''o/r''])"
  by (simp add: afterFirstPoll_def poll1) (simp add: daemon_defs world_defs)

lemma status_wFailing: "wStatus (wFailing k) = Inr (quietStatus\<lparr>statusFailedBuilds := k\<rparr>)"
  by (simp add: wFailing_def)

subsection \<open>Build failures\<close>

lemma buildReports_buildStage:
  "buildReports repo (snd (buildStage repo p status w)) = snd (buildStage repo p status w)"
  by (auto simp: buildReports_def buildStage_def filter_id_conv split: sum.splits)

lemma buildReports_depsStage: "buildReports r (snd (snd (depsStage cfg n repo p w))) = []"
  by (auto simp: buildReports_def depsStage_def split: sum.splits option.splits)

lemma buildReports_releaseStage: "buildReports r (snd (snd (releaseStage repo p w))) = []"
  by (auto simp: buildReports_def releaseStage_def split: sum.splits)

lemma releaseReports_buildStage: "releaseReports r (snd (buildStage repo p status w)) = []"
  by (auto simp: releaseReports_def buildStage_def filter_empty_conv split: sum.splits)

lemma releaseReports_depsStage: "releaseReports r (snd (snd (depsStage cfg n repo p w))) = []"
  by (auto simp: releaseReports_def depsStage_def split: sum.splits option.splits)

lemma releaseReports_releaseStage:
  "wRelease w = Inr rc \<Longrightarrow>
     releaseReports repo (snd (snd (releaseStage repo p w))) =
       (if needed rc \<and> \<not> releaseNotified p then [ReleaseMayBeNeeded repo (reason rc)] else [])"
  by (simp add: releaseReports_def releaseStage_def)

lemma snd_buildStage:
  "snd (buildStage repo p status w) =
     (if statusFailedBuilds status > 0 \<and> Some (statusFailedBuilds status) \<noteq> failedBuilds p
      then expectedBuildReports repo w else [])"
  by (simp add: buildStage_def expectedBuildReports_def split: sum.splits)

lemma checkRepo_buildReports:
  assumes "wStatus w = Inr status"
  shows "buildReports repo (snd (snd (checkRepo cfg n rs repo w))) =
     (if statusFailedBuilds status > 0
         \<and> Some (statusFailedBuilds status) \<noteq> storedFailedBuilds rs repo
      then expectedBuildReports repo w else [])"
proof -
  from checkRepo_calls [OF assms, of cfg n rs repo]
  obtain c2 c3 where cs: "snd (snd (checkRepo cfg n rs repo w)) =
       GetRepoStatus repo # snd (buildStage repo (prevOf rs repo) status w) @ c2 @ c3"
    and c2: "c2 = [] \<or> c2 = snd (snd (depsStage cfg n repo (prevOf rs repo) w))"
    and c3: "c3 = [] \<or> c3 = snd (snd (releaseStage repo
                (fst (snd (depsStage cfg n repo (prevOf rs repo) w))) w))"
    by blast
  from c2 have n2: "buildReports repo c2 = []"
    using buildReports_depsStage by (auto simp: buildReports_def)
  from c3 have n3: "buildReports repo c3 = []"
    using buildReports_releaseStage by (auto simp: buildReports_def)
  have b: "buildReports repo (snd (buildStage repo (prevOf rs repo) status w))
             = snd (buildStage repo (prevOf rs repo) status w)"
    by (rule buildReports_buildStage)
  have "buildReports repo (snd (snd (checkRepo cfg n rs repo w)))
          = snd (buildStage repo (prevOf rs repo) status w)"
    using n2 n3 b by (simp add: cs buildReports_def)
  then show ?thesis
    by (simp add: snd_buildStage failedBuilds_prevOf)
qed

text \<open>
  Claim C3. A poll whose status request succeeds reports a build failure as new if and
  only if the observed failed-build count is greater than zero and differs from the count
  stored for the repository, an absent count differing from every number. Reporting is
  what the poll does about build failures: when the condition is new it requests the
  details of the failed builds and sends a notification for each of the first three; when
  it is not, it requests nothing and sends no notification. A poll that completes stores
  the count it observed, so for a completed poll followed by another poll of the same
  repository the failure is reported exactly when the second count is nonzero and differs
  from the first: an unchanged nonzero count is silent, a change is reported.
\<close>

theorem build_failure_new_iff_count_changed:
  "(wStatus w = Inr status \<longrightarrow>
      (GetFailedBuildDetails repo \<in> set (snd (snd (checkRepo cfg n rs repo w)))) =
        (statusFailedBuilds status > 0
         \<and> Some (statusFailedBuilds status) \<noteq> storedFailedBuilds rs repo)
      \<and> buildReports repo (snd (snd (checkRepo cfg n rs repo w))) =
        (if statusFailedBuilds status > 0
            \<and> Some (statusFailedBuilds status) \<noteq> storedFailedBuilds rs repo
         then expectedBuildReports repo w else []))
   \<and> (checkRepo cfg nA rs repo wA = (rsA, Success statusA, csA) \<and> wStatus wB = Inr statusB \<longrightarrow>
      (GetFailedBuildDetails repo \<in> set (snd (snd (checkRepo cfg nB rsA repo wB)))) =
        (statusFailedBuilds statusB > 0
         \<and> statusFailedBuilds statusB \<noteq> statusFailedBuilds statusA)
      \<and> buildReports repo (snd (snd (checkRepo cfg nB rsA repo wB))) =
        (if statusFailedBuilds statusB > 0
            \<and> statusFailedBuilds statusB \<noteq> statusFailedBuilds statusA
         then expectedBuildReports repo wB else []))"
proof (intro conjI impI)
  assume a: "wStatus w = Inr status"
  then show "(GetFailedBuildDetails repo \<in> set (snd (snd (checkRepo cfg n rs repo w)))) =
        (statusFailedBuilds status > 0
         \<and> Some (statusFailedBuilds status) \<noteq> storedFailedBuilds rs repo)"
    by (rule checkRepo_detects)
  from a show "buildReports repo (snd (snd (checkRepo cfg n rs repo w))) =
        (if statusFailedBuilds status > 0
            \<and> Some (statusFailedBuilds status) \<noteq> storedFailedBuilds rs repo
         then expectedBuildReports repo w else [])"
    by (rule checkRepo_buildReports)
next
  assume a: "checkRepo cfg nA rs repo wA = (rsA, Success statusA, csA) \<and> wStatus wB = Inr statusB"
  then have s: "storedFailedBuilds rsA repo = Some (statusFailedBuilds statusA)"
    using checkRepo_stores_count by blast
  with a show "(GetFailedBuildDetails repo \<in> set (snd (snd (checkRepo cfg nB rsA repo wB)))) =
        (statusFailedBuilds statusB > 0
         \<and> statusFailedBuilds statusB \<noteq> statusFailedBuilds statusA)"
    by (simp add: checkRepo_detects)
  from a s show "buildReports repo (snd (snd (checkRepo cfg nB rsA repo wB))) =
        (if statusFailedBuilds statusB > 0
            \<and> statusFailedBuilds statusB \<noteq> statusFailedBuilds statusA
         then expectedBuildReports repo wB else [])"
    by (simp add: checkRepo_buildReports)
qed

theorem build_failure_new_iff_count_changed_witness:
  "buildReports ''o/r'' (snd (snd (checkRepo oneRepo 2 afterFirstPoll ''o/r'' (wFailing 3)))) = []
   \<and> buildReports ''o/r'' (snd (snd (checkRepo oneRepo 3 afterSecondPoll ''o/r'' (wFailing 7))))
       = [GetFailedBuildDetails ''o/r'',
          NotifyBuildFailure ''o/r'' \<lparr>failureRunId = 1, failureName = ''CI''\<rparr>]"
proof -
  have a: "checkRepo oneRepo 1 Map.empty ''o/r'' (wFailing 3)
             = (afterFirstPoll, Success (quietStatus\<lparr>statusFailedBuilds := 3\<rparr>),
                snd (snd (checkRepo oneRepo 1 Map.empty ''o/r'' (wFailing 3))))
           \<and> wStatus (wFailing 3) = Inr (quietStatus\<lparr>statusFailedBuilds := 3\<rparr>)"
    unfolding afterFirstPoll_def poll1 by (simp add: status_wFailing)
  have b: "checkRepo oneRepo 2 afterFirstPoll ''o/r'' (wFailing 3)
             = (afterSecondPoll, Success (quietStatus\<lparr>statusFailedBuilds := 3\<rparr>),
                snd (snd (checkRepo oneRepo 2 afterFirstPoll ''o/r'' (wFailing 3))))
           \<and> wStatus (wFailing 7) = Inr (quietStatus\<lparr>statusFailedBuilds := 7\<rparr>)"
    unfolding afterSecondPoll_def poll2 by (simp add: status_wFailing)
  have e: "expectedBuildReports ''o/r'' (wFailing 7)
      = [GetFailedBuildDetails ''o/r'',
          NotifyBuildFailure ''o/r'' \<lparr>failureRunId = 1, failureName = ''CI''\<rparr>]"
    by (simp add: expectedBuildReports_def wFailing_def)
  from a build_failure_new_iff_count_changed
      [where cfg = oneRepo and nA = 1 and rs = Map.empty and repo = "''o/r''"
         and wA = "wFailing 3" and rsA = afterFirstPoll and nB = 2 and wB = "wFailing 3"
         and statusA = "quietStatus\<lparr>statusFailedBuilds := 3\<rparr>"
         and statusB = "quietStatus\<lparr>statusFailedBuilds := 3\<rparr>"
         and csA = "snd (snd (checkRepo oneRepo 1 Map.empty ''o/r'' (wFailing 3)))"]
  have one: "buildReports ''o/r'' (snd (snd (checkRepo oneRepo 2 afterFirstPoll ''o/r'' (wFailing 3)))) = []"
    by simp
  from b build_failure_new_iff_count_changed
      [where cfg = oneRepo and nA = 2 and rs = afterFirstPoll and repo = "''o/r''"
         and wA = "wFailing 3" and rsA = afterSecondPoll and nB = 3 and wB = "wFailing 7"
         and statusA = "quietStatus\<lparr>statusFailedBuilds := 3\<rparr>"
         and statusB = "quietStatus\<lparr>statusFailedBuilds := 7\<rparr>"
         and csA = "snd (snd (checkRepo oneRepo 2 afterFirstPoll ''o/r'' (wFailing 3)))"]
  have two: "buildReports ''o/r'' (snd (snd (checkRepo oneRepo 3 afterSecondPoll ''o/r'' (wFailing 7))))
      = expectedBuildReports ''o/r'' (wFailing 7)"
    by simp
  from one two e show ?thesis by simp
qed

subsection \<open>The first poll\<close>

lemma releaseStage_ok: "fst (releaseStage repo p w) = None \<Longrightarrow> \<exists>rc. wRelease w = Inr rc"
  by (cases "wRelease w") (auto simp: releaseStage_def)

lemma releaseStage_after:
  "wRelease w = Inr rc \<Longrightarrow>
     releaseNotified (fst (snd (releaseStage repo p w))) = (needed rc \<or> releaseNotified p)"
  by (auto simp: releaseStage_def)

lemma buildStage_same_count:
  "failedBuilds p = Some (statusFailedBuilds status) \<Longrightarrow> buildStage repo p status w = (None, [])"
  by (simp add: buildStage_def)

lemma releaseStage_silent:
  "wRelease w = Inr rc \<Longrightarrow> needed rc \<longrightarrow> releaseNotified p \<Longrightarrow>
     releaseStage repo p w = (None, p, [IsReleaseNeeded repo])"
  by (auto simp: releaseStage_def)

lemma releaseStage_never:
  "releaseNotified p \<or> (\<exists>rc. wRelease w = Inr rc \<and> \<not> needed rc) \<Longrightarrow>
    ReleaseMayBeNeeded r x \<notin> set (snd (snd (releaseStage repo p w)))"
  by (auto simp: releaseStage_def split: sum.splits)

lemma first_poll_facts:
  assumes first: "rs repo = None"
    and ok: "checkRepo cfg n rs repo w = (rsA, Success status, csA)"
  shows "(GetFailedBuildDetails repo \<in> set csA) = (statusFailedBuilds status > 0)"
    and "\<exists>rc. wRelease w = Inr rc
           \<and> (ReleaseMayBeNeeded repo (reason rc) \<in> set csA) = needed rc"
    and "GetFailedBuildDetails repo \<notin> set (snd (snd (checkRepo cfg (Suc n) rsA repo w)))"
    and "ReleaseMayBeNeeded repo x \<notin> set (snd (snd (checkRepo cfg (Suc n) rsA repo w)))"
    and "Suc n mod 4 \<noteq> 0 \<longrightarrow>
           snd (snd (checkRepo cfg (Suc n) rsA repo w)) = [GetRepoStatus repo, IsReleaseNeeded repo]"
proof -
  let ?p0 = "prevOf rs repo"
  let ?p1 = "fst (snd (depsStage cfg n repo ?p0 w))"
  let ?p2 = "fst (snd (releaseStage repo ?p1 w))"
  let ?q = "?p2\<lparr>failedBuilds := Some (statusFailedBuilds status), lastCheck := Some (wNow w)\<rparr>"
  note s = checkRepo_success [OF ok]
  have p0: "?p0 = emptyState" using first by (simp add: prevOf_def)
  have st: "wStatus w = Inr status" by (rule s(1))
  have csA: "csA = GetRepoStatus repo # snd (buildStage repo ?p0 status w)
            @ snd (snd (depsStage cfg n repo ?p0 w)) @ snd (snd (releaseStage repo ?p1 w))"
    by (rule s(6))
  have rsA: "rsA = rs(repo \<mapsto> ?q)" by (rule s(5))
  from releaseStage_ok [OF s(4)] obtain rc where rc: "wRelease w = Inr rc" by blast
  have nA: "\<not> releaseNotified ?p1"
    by (simp add: depsStage_state p0 emptyState_def)
  show "(GetFailedBuildDetails repo \<in> set csA) = (statusFailedBuilds status > 0)"
    by (simp add: csA depsStage_calls releaseStage_calls buildStage_detects)
       (simp add: p0 emptyState_def)
  have "(ReleaseMayBeNeeded repo (reason rc) \<in> set csA) = needed rc"
    by (simp add: csA buildStage_no_release depsStage_calls releaseStage_detects [OF rc] nA)
  with rc show "\<exists>rc. wRelease w = Inr rc
           \<and> (ReleaseMayBeNeeded repo (reason rc) \<in> set csA) = needed rc"
    by blast
  have q: "prevOf rsA repo = ?q" by (simp add: rsA prevOf_def)
  have stored: "storedFailedBuilds rsA repo = Some (statusFailedBuilds status)"
    by (simp add: rsA storedFailedBuilds_def)
  show "GetFailedBuildDetails repo \<notin> set (snd (snd (checkRepo cfg (Suc n) rsA repo w)))"
    by (simp add: checkRepo_detects [OF st] stored)
  have b: "buildStage repo ?q status w = (None, [])"
    by (simp add: buildStage_same_count)
  have notif: "needed rc \<longrightarrow> releaseNotified ?q"
    by (simp add: releaseStage_after [OF rc])
  let ?d = "depsStage cfg (Suc n) repo ?q w"
  have notif': "needed rc \<longrightarrow> releaseNotified (fst (snd ?d))"
    using notif by (simp add: depsStage_state)
  from checkRepo_calls [OF st, of cfg "Suc n" rsA repo]
  obtain c2 c3 where cs: "snd (snd (checkRepo cfg (Suc n) rsA repo w)) =
       GetRepoStatus repo # snd (buildStage repo (prevOf rsA repo) status w) @ c2 @ c3"
    and c2: "c2 = [] \<or> c2 = snd (snd (depsStage cfg (Suc n) repo (prevOf rsA repo) w))"
    and c3: "c3 = [] \<or> c3 = snd (snd (releaseStage repo
                (fst (snd (depsStage cfg (Suc n) repo (prevOf rsA repo) w))) w))"
    by blast
  from c2 have nB: "ReleaseMayBeNeeded repo x \<notin> set c2"
    using depsStage_calls(2) by fastforce
  have "ReleaseMayBeNeeded repo x \<notin> set (snd (snd (releaseStage repo (fst (snd ?d)) w)))"
    by (rule releaseStage_never) (use notif' rc in auto)
  with c3 have n3: "ReleaseMayBeNeeded repo x \<notin> set c3"
    by (auto simp: q)
  show "ReleaseMayBeNeeded repo x \<notin> set (snd (snd (checkRepo cfg (Suc n) rsA repo w)))"
    by (simp add: cs nB n3 buildStage_no_release)
  show "Suc n mod 4 \<noteq> 0 \<longrightarrow>
           snd (snd (checkRepo cfg (Suc n) rsA repo w)) = [GetRepoStatus repo, IsReleaseNeeded repo]"
  proof
    assume off: "Suc n mod 4 \<noteq> 0"
    have d: "depsStage cfg (Suc n) repo (prevOf rsA repo) w = (None, ?q, [])"
      by (simp add: q depsStage_off [OF off])
    have r: "releaseStage repo ?q w = (None, ?q, [IsReleaseNeeded repo])"
      by (rule releaseStage_silent [OF rc notif])
    have b': "buildStage repo (prevOf rsA repo) status w = (None, [])"
      by (simp add: q b)
    show "snd (snd (checkRepo cfg (Suc n) rsA repo w)) = [GetRepoStatus repo, IsReleaseNeeded repo]"
      by (simp add: checkRepo_stages [OF st b' d r])
  qed
qed

lemma isReleaseReport_iff: "isReleaseReport repo c = (\<exists>x. c = ReleaseMayBeNeeded repo x)"
  by (cases c) auto

lemma releaseReports_empty:
  "releaseReports repo cs = [] \<longleftrightarrow> (\<forall>x. ReleaseMayBeNeeded repo x \<notin> set cs)"
  by (auto simp: releaseReports_def filter_empty_conv isReleaseReport_iff)

lemma first_poll_reports:
  assumes first: "rs repo = None"
    and ok: "checkRepo cfg n rs repo w = (rsA, Success status, csA)"
  shows "buildReports repo csA =
           (if statusFailedBuilds status > 0 then expectedBuildReports repo w else [])"
    and "\<exists>rc. wRelease w = Inr rc
           \<and> releaseReports repo csA =
               (if needed rc then [ReleaseMayBeNeeded repo (reason rc)] else [])"
    and "buildReports repo (snd (snd (checkRepo cfg (Suc n) rsA repo w))) = []"
    and "releaseReports repo (snd (snd (checkRepo cfg (Suc n) rsA repo w))) = []"
proof -
  let ?p0 = "prevOf rs repo"
  let ?p1 = "fst (snd (depsStage cfg n repo ?p0 w))"
  note s = checkRepo_success [OF ok]
  have st: "wStatus w = Inr status" by (rule s(1))
  have none: "storedFailedBuilds rs repo = None"
    using first by (simp add: storedFailedBuilds_def)
  from checkRepo_buildReports [OF st, of repo cfg n rs] ok none
  show "buildReports repo csA =
           (if statusFailedBuilds status > 0 then expectedBuildReports repo w else [])"
    by simp
  from releaseStage_ok [OF s(4)] obtain rc where rc: "wRelease w = Inr rc" by blast
  have p0: "?p0 = emptyState" using first by (simp add: prevOf_def)
  have nA: "\<not> releaseNotified ?p1"
    by (simp add: depsStage_state p0 emptyState_def)
  have "releaseReports repo csA = releaseReports repo (snd (snd (releaseStage repo ?p1 w)))"
    using releaseReports_buildStage [of repo repo ?p0 status w]
      releaseReports_depsStage [of repo cfg n repo ?p0 w]
    by (simp add: s(6) releaseReports_def)
  also have "\<dots> = (if needed rc then [ReleaseMayBeNeeded repo (reason rc)] else [])"
    by (simp add: releaseReports_releaseStage [OF rc] nA)
  finally show "\<exists>rc. wRelease w = Inr rc
           \<and> releaseReports repo csA =
               (if needed rc then [ReleaseMayBeNeeded repo (reason rc)] else [])"
    using rc by blast
  have stored: "storedFailedBuilds rsA repo = Some (statusFailedBuilds status)"
    using checkRepo_stores_count [OF ok] .
  show "buildReports repo (snd (snd (checkRepo cfg (Suc n) rsA repo w))) = []"
    by (simp add: checkRepo_buildReports [OF st] stored)
  show "releaseReports repo (snd (snd (checkRepo cfg (Suc n) rsA repo w))) = []"
    using first_poll_facts(4) [OF first ok] by (simp add: releaseReports_empty)
qed

text \<open>
  Claim C4, as amended. On a first poll of a repository (nothing stored for it) that
  completes, a nonzero failed-build count is reported as a new build failure (the details
  are requested and the first three failures notified) and a needed release is reported
  (its line is printed once); the poll of the next cycle with the same answers reports
  neither again: no request for details, no notification, no release line. When that next
  cycle is not one that scans dependencies, it makes the two status requests and nothing
  else.
\<close>

theorem first_poll_reports_once:
  "rs repo = None \<and> checkRepo cfg n rs repo w = (rsA, Success status, csA) \<longrightarrow>
     (GetFailedBuildDetails repo \<in> set csA) = (statusFailedBuilds status > 0)
     \<and> buildReports repo csA =
          (if statusFailedBuilds status > 0 then expectedBuildReports repo w else [])
     \<and> (\<exists>rc. wRelease w = Inr rc
           \<and> (ReleaseMayBeNeeded repo (reason rc) \<in> set csA) = needed rc
           \<and> releaseReports repo csA =
               (if needed rc then [ReleaseMayBeNeeded repo (reason rc)] else []))
     \<and> GetFailedBuildDetails repo \<notin> set (snd (snd (checkRepo cfg (Suc n) rsA repo w)))
     \<and> buildReports repo (snd (snd (checkRepo cfg (Suc n) rsA repo w))) = []
     \<and> (\<forall>x. ReleaseMayBeNeeded repo x \<notin> set (snd (snd (checkRepo cfg (Suc n) rsA repo w))))
     \<and> releaseReports repo (snd (snd (checkRepo cfg (Suc n) rsA repo w))) = []
     \<and> (Suc n mod 4 \<noteq> 0 \<longrightarrow>
           snd (snd (checkRepo cfg (Suc n) rsA repo w))
             = [GetRepoStatus repo, IsReleaseNeeded repo])"
proof (intro impI)
  assume a: "rs repo = None \<and> checkRepo cfg n rs repo w = (rsA, Success status, csA)"
  then have first: "rs repo = None"
    and ok: "checkRepo cfg n rs repo w = (rsA, Success status, csA)" by blast+
  note f = first_poll_facts [OF first ok] and r = first_poll_reports [OF first ok]
  from f(2) r(2) have rel: "\<exists>rc. wRelease w = Inr rc
           \<and> (ReleaseMayBeNeeded repo (reason rc) \<in> set csA) = needed rc
           \<and> releaseReports repo csA =
               (if needed rc then [ReleaseMayBeNeeded repo (reason rc)] else [])"
    by (metis sum.inject(2))
  from f(1) r(1) rel f(3) r(3) f(4) r(4) f(5)
  show "(GetFailedBuildDetails repo \<in> set csA) = (statusFailedBuilds status > 0)
     \<and> buildReports repo csA =
          (if statusFailedBuilds status > 0 then expectedBuildReports repo w else [])
     \<and> (\<exists>rc. wRelease w = Inr rc
           \<and> (ReleaseMayBeNeeded repo (reason rc) \<in> set csA) = needed rc
           \<and> releaseReports repo csA =
               (if needed rc then [ReleaseMayBeNeeded repo (reason rc)] else []))
     \<and> GetFailedBuildDetails repo \<notin> set (snd (snd (checkRepo cfg (Suc n) rsA repo w)))
     \<and> buildReports repo (snd (snd (checkRepo cfg (Suc n) rsA repo w))) = []
     \<and> (\<forall>x. ReleaseMayBeNeeded repo x \<notin> set (snd (snd (checkRepo cfg (Suc n) rsA repo w))))
     \<and> releaseReports repo (snd (snd (checkRepo cfg (Suc n) rsA repo w))) = []
     \<and> (Suc n mod 4 \<noteq> 0 \<longrightarrow>
           snd (snd (checkRepo cfg (Suc n) rsA repo w))
             = [GetRepoStatus repo, IsReleaseNeeded repo])"
    by blast
qed

theorem first_poll_reports_once_witness:
  "buildReports ''o/r'' (snd (snd (checkRepo oneRepo 1 Map.empty ''o/r'' (wFailing 3))))
     = [GetFailedBuildDetails ''o/r'',
        NotifyBuildFailure ''o/r'' \<lparr>failureRunId = 1, failureName = ''CI''\<rparr>]
   \<and> releaseReports ''o/r'' (snd (snd (checkRepo oneRepo 1 Map.empty ''o/r'' (wFailing 3))))
     = [ReleaseMayBeNeeded ''o/r'' ''No previous releases'']
   \<and> buildReports ''o/r'' (snd (snd (checkRepo oneRepo (Suc 1) afterFirstPoll ''o/r'' (wFailing 3)))) = []
   \<and> releaseReports ''o/r'' (snd (snd (checkRepo oneRepo (Suc 1) afterFirstPoll ''o/r'' (wFailing 3)))) = []
   \<and> snd (snd (checkRepo oneRepo (Suc 1) afterFirstPoll ''o/r'' (wFailing 3)))
       = [GetRepoStatus ''o/r'', IsReleaseNeeded ''o/r'']"
proof -
  let ?cs = "snd (snd (checkRepo oneRepo 1 Map.empty ''o/r'' (wFailing 3)))"
  let ?cs2 = "snd (snd (checkRepo oneRepo (Suc 1) afterFirstPoll ''o/r'' (wFailing 3)))"
  have pre: "Map.empty ''o/r'' = None
      \<and> checkRepo oneRepo 1 Map.empty ''o/r'' (wFailing 3)
          = (afterFirstPoll, Success (quietStatus\<lparr>statusFailedBuilds := 3\<rparr>), ?cs)"
    unfolding afterFirstPoll_def poll1 by simp
  have rel: "wRelease (wFailing 3) = Inr \<lparr>needed = True, reason = ''No previous releases''\<rparr>"
    by (simp add: wFailing_def)
  have e: "expectedBuildReports ''o/r'' (wFailing 3)
      = [GetFailedBuildDetails ''o/r'',
          NotifyBuildFailure ''o/r'' \<lparr>failureRunId = 1, failureName = ''CI''\<rparr>]"
    by (simp add: expectedBuildReports_def wFailing_def)
  have off: "Suc 1 mod 4 \<noteq> (0::nat)" by simp
  from pre first_poll_reports_once
    [where rs = Map.empty and repo = "''o/r''" and cfg = oneRepo and n = 1
       and w = "wFailing 3" and rsA = afterFirstPoll
       and status = "quietStatus\<lparr>statusFailedBuilds := 3\<rparr>" and csA = ?cs]
  have "buildReports ''o/r'' ?cs =
          (if statusFailedBuilds (quietStatus\<lparr>statusFailedBuilds := 3\<rparr>) > 0
           then expectedBuildReports ''o/r'' (wFailing 3) else [])
     \<and> (\<exists>rc. wRelease (wFailing 3) = Inr rc
           \<and> releaseReports ''o/r'' ?cs =
               (if needed rc then [ReleaseMayBeNeeded ''o/r'' (reason rc)] else []))
     \<and> buildReports ''o/r'' ?cs2 = []
     \<and> releaseReports ''o/r'' ?cs2 = []
     \<and> (Suc 1 mod 4 \<noteq> 0 \<longrightarrow> ?cs2 = [GetRepoStatus ''o/r'', IsReleaseNeeded ''o/r''])"
    by blast
  with rel off e show ?thesis
    by (simp add: quietStatus_def buildReports_def releaseReports_def)
qed

text \<open>
  The claim as stated covers every first poll, also one that fails. \<^verbatim>\<open>checkRepo\<close> stores the state
  of a repository in its last statement only; a first poll that has notified three failed
  builds and then fails on the release request stores nothing, and the poll of the next
  cycle, with the same answers, notifies the same failure again.
\<close>

theorem failed_first_poll_reports_again:
  "buildReports ''o/r''
     (calls (runDaemon oneRepo initialDaemon
        [Tick 0, Resume 0 wFailingThenError, Tick 0, Resume 0 wFailingThenError]))
     = [GetFailedBuildDetails ''o/r'',
        NotifyBuildFailure ''o/r'' \<lparr>failureRunId = 1, failureName = ''CI''\<rparr>,
        GetFailedBuildDetails ''o/r'',
        NotifyBuildFailure ''o/r'' \<lparr>failureRunId = 1, failureName = ''CI''\<rparr>]
   \<and> repoState (runDaemon oneRepo initialDaemon [Tick 0, Resume 0 wFailingThenError]) ''o/r''
       = None"
  by (simp add: runDaemon_def runCheckStart_def runCheckResume_def initialDaemon_def
        config_def oneRepo_def buildReports_def Let_def)
     (simp add: daemon_defs world_defs wFailingThenError_def)

subsection \<open>Evaluating the concrete runs\<close>

lemmas step_defs = runDaemon_def runCheckStart_def runCheckResume_def initialDaemon_def
  restart_def

lemma pollDown: "checkRepo oneRepo n rs ''o/r'' wDown = (rs, Failed (Error ''503''), [GetRepoStatus ''o/r''])"
  by (simp add: checkRepo_def wDown_def Let_def)

lemma pollUpdateThenError:
  "checkRepo oneRepo n Map.empty ''o/r'' wUpdateThenError =
     (Map.empty, Failed (Error ''503''),
      if n mod 4 = 0 then
        [GetRepoStatus ''o/r'', ScanDependencies ''o/r'',
         CreateDependencyUpdatePR ''o/r'' [patchUpdate], NotifyDependencyUpdate ''o/r'' 7,
         IsReleaseNeeded ''o/r'']
      else [GetRepoStatus ''o/r'', IsReleaseNeeded ''o/r''])"
  by (simp add: daemon_defs wUpdateThenError_def wUpdate_def quietStatus_def)
     (simp add: patchUpdate_def)

lemma oneRepo_targets: "targetRepos oneRepo = [''o/r'']"
  by (simp add: oneRepo_def config_def)

lemma pollUpdate:
  "checkRepo oneRepo 4 Map.empty ''o/r'' wUpdate =
     ([''o/r'' \<mapsto> \<lparr>failedBuilds = Some 0, pendingDepsPR = Some 7, releaseNotified = False,
                      lastCheck = Some 0\<rparr>],
      Success quietStatus,
      [GetRepoStatus ''o/r'', ScanDependencies ''o/r'',
       CreateDependencyUpdatePR ''o/r'' [patchUpdate], NotifyDependencyUpdate ''o/r'' 7,
       IsReleaseNeeded ''o/r''])"
  by (simp add: daemon_defs wUpdate_def quietStatus_def) (simp add: patchUpdate_def)

subsection \<open>The pending dependency pull request\<close>

lemma opensPR_build: "filter (opensPR r) (snd (buildStage repo p status w)) = []"
  by (auto simp: buildStage_def filter_empty_conv split: sum.splits)

lemma opensPR_release: "filter (opensPR r) (snd (snd (releaseStage repo p w))) = []"
  by (auto simp: releaseStage_def split: sum.splits)

lemma opensPR_deps_pending:
  "truthy (pendingDepsPR p) \<Longrightarrow> filter (opensPR r) (snd (snd (depsStage cfg n repo p w))) = []"
  by (auto simp: depsStage_def split: sum.splits option.splits)

lemma opensPR_deps_other:
  "r \<noteq> repo \<Longrightarrow> filter (opensPR r) (snd (snd (depsStage cfg n repo p w))) = []"
  by (auto simp: depsStage_def split: sum.splits option.splits)

lemma opensPR_deps_opened:
  "filter (opensPR repo) (snd (snd (depsStage cfg n repo p w))) \<noteq> [] \<Longrightarrow>
   wCreatePR w = Inr pr \<Longrightarrow>
     pendingDepsPR (fst (snd (depsStage cfg n repo p w))) = Some (number pr)"
  by (auto simp: depsStage_def createDependencyUpdatePR_def split: sum.splits option.splits if_splits)

lemma checkRepo_other:
  "r \<noteq> repo \<Longrightarrow> fst (checkRepo cfg n rs repo w) r = rs r"
  by (auto simp: checkRepo_def writeThrough_def Let_def
      split: sum.splits prod.splits option.splits)

lemma checkRepo_other_prs:
  assumes "r \<noteq> repo"
  shows "prsOpened r (snd (snd (checkRepo cfg n rs repo w))) = []"
proof (cases "wStatus w")
  case (Inl e)
  then show ?thesis by (simp add: checkRepo_def prsOpened_def Let_def)
next
  case (Inr status)
  from checkRepo_calls [OF Inr, of cfg n rs repo]
  obtain c2 c3 where cs: "snd (snd (checkRepo cfg n rs repo w)) =
       GetRepoStatus repo # snd (buildStage repo (prevOf rs repo) status w) @ c2 @ c3"
    and c2: "c2 = [] \<or> c2 = snd (snd (depsStage cfg n repo (prevOf rs repo) w))"
    and c3: "c3 = [] \<or> c3 = snd (snd (releaseStage repo
                (fst (snd (depsStage cfg n repo (prevOf rs repo) w))) w))"
    by blast
  from c2 assms have "filter (opensPR r) c2 = []"
    using opensPR_deps_other by fastforce
  moreover from c3 have "filter (opensPR r) c3 = []"
    using opensPR_release by fastforce
  ultimately show ?thesis
    by (simp add: cs prsOpened_def opensPR_build)
qed

lemma checkRepo_pending_prs:
  assumes "truthy (storedPendingPR rs repo)"
  shows "prsOpened repo (snd (snd (checkRepo cfg n rs repo w))) = []"
proof (cases "wStatus w")
  case (Inl e)
  then show ?thesis by (simp add: checkRepo_def prsOpened_def Let_def)
next
  case (Inr status)
  from assms have t: "truthy (pendingDepsPR (prevOf rs repo))"
    by (simp add: storedPendingPR_def prevOf_def truthy_def split: option.splits)
  from checkRepo_calls [OF Inr, of cfg n rs repo]
  obtain c2 c3 where cs: "snd (snd (checkRepo cfg n rs repo w)) =
       GetRepoStatus repo # snd (buildStage repo (prevOf rs repo) status w) @ c2 @ c3"
    and c2: "c2 = [] \<or> c2 = snd (snd (depsStage cfg n repo (prevOf rs repo) w))"
    and c3: "c3 = [] \<or> c3 = snd (snd (releaseStage repo
                (fst (snd (depsStage cfg n repo (prevOf rs repo) w))) w))"
    by blast
  from c2 t have "filter (opensPR repo) c2 = []"
    using opensPR_deps_pending by fastforce
  moreover from c3 have "filter (opensPR repo) c3 = []"
    using opensPR_release by fastforce
  ultimately show ?thesis
    by (simp add: cs prsOpened_def opensPR_build)
qed

lemma checkRepo_pending_kept:
  assumes "truthy (storedPendingPR rs repo)"
  shows "storedPendingPR (fst (checkRepo cfg n rs repo w)) repo = storedPendingPR rs repo"
proof -
  from assms obtain p where p: "rs repo = Some p" and t: "truthy (pendingDepsPR p)"
    by (auto simp: storedPendingPR_def truthy_def split: option.splits)
  have p0: "prevOf rs repo = p" by (simp add: prevOf_def p)
  have d: "fst (snd (depsStage cfg n repo p w)) = p"
    using depsStage_pending [OF t] by blast
  have r: "pendingDepsPR (fst (snd (releaseStage repo p w))) = pendingDepsPR p"
    by (rule releaseStage_state)
  show ?thesis
  proof (cases "wStatus w")
    case (Inl e)
    then show ?thesis by (simp add: checkRepo_def Let_def)
  next
    case (Inr status)
    obtain e1 c1 where b: "buildStage repo p status w = (e1, c1)" by (cases "buildStage repo p status w")
    obtain e2 p1 c2 where dd: "depsStage cfg n repo p w = (e2, p1, c2)"
      by (cases "depsStage cfg n repo p w") auto
    with d have p1: "p1 = p" by simp
    obtain e3 p2 c3 where rr: "releaseStage repo p w = (e3, p2, c3)"
      by (cases "releaseStage repo p w") auto
    with r have p2: "pendingDepsPR p2 = pendingDepsPR p" by simp
    show ?thesis
      by (cases e1; cases e2; cases e3)
         (simp_all add: checkRepo_def Let_def Inr p0 b dd p1 rr p2 writeThrough_def p
            storedPendingPR_def)
  qed
qed

lemma checkRepo_any_pending:
  assumes "truthy (storedPendingPR rs r)"
  shows "prsOpened r (snd (snd (checkRepo cfg n rs repo w))) = []
       \<and> storedPendingPR (fst (checkRepo cfg n rs repo w)) r = storedPendingPR rs r"
proof (cases "r = repo")
  case True
  with assms show ?thesis by (simp add: checkRepo_pending_prs checkRepo_pending_kept)
next
  case False
  then show ?thesis
    by (simp add: checkRepo_other_prs storedPendingPR_def checkRepo_other)
qed

lemma runCheckStart_same:
  "repoState (runCheckStart cfg now d) = repoState d"
  "calls (runCheckStart cfg now d) = calls d"
  by (simp_all add: runCheckStart_def Let_def)

lemma runCheckResume_pending:
  assumes "truthy (storedPendingPR (repoState d) r)"
  shows "prsOpened r (calls (runCheckResume cfg i w d)) = prsOpened r (calls d)
       \<and> storedPendingPR (repoState (runCheckResume cfg i w d)) r = storedPendingPR (repoState d) r"
proof (cases "i < length (activations d)")
  case False
  then show ?thesis by (simp add: runCheckResume_def)
next
  case True
  show ?thesis
  proof (cases "remaining (activations d ! i)")
    case Nil
    with True show ?thesis by (simp add: runCheckResume_def Let_def)
  next
    case (Cons repo rest)
    obtain rs res cs where c: "checkRepo cfg (checkCount d) (repoState d) repo w = (rs, res, cs)"
      by (cases "checkRepo cfg (checkCount d) (repoState d) repo w") auto
    from checkRepo_any_pending [OF assms, of cfg "checkCount d" repo w] c
    have "prsOpened r cs = [] \<and> storedPendingPR rs r = storedPendingPR (repoState d) r"
      by simp
    with True Cons c show ?thesis
      by (simp add: runCheckResume_def Let_def prsOpened_def)
  qed
qed

lemma daemonStep_pending:
  "truthy (storedPendingPR (repoState d) r) \<Longrightarrow>
     prsOpened r (calls (daemonStep cfg d oc)) = prsOpened r (calls d)
     \<and> storedPendingPR (repoState (daemonStep cfg d oc)) r = storedPendingPR (repoState d) r"
  by (cases oc) (simp_all add: runCheckStart_same runCheckResume_pending)

lemma runDaemon_pending:
  "truthy (storedPendingPR (repoState d) r) \<Longrightarrow>
     prsOpened r (calls (runDaemon cfg d os)) = prsOpened r (calls d)
     \<and> storedPendingPR (repoState (runDaemon cfg d os)) r = storedPendingPR (repoState d) r"
proof (induction os arbitrary: d)
  case Nil
  then show ?case by (simp add: runDaemon_def)
next
  case (Cons oc os)
  from daemonStep_pending [OF Cons.prems, of cfg oc]
  have s: "prsOpened r (calls (daemonStep cfg d oc)) = prsOpened r (calls d)"
    and k: "storedPendingPR (repoState (daemonStep cfg d oc)) r = storedPendingPR (repoState d) r"
    by blast+
  from k Cons.prems have "truthy (storedPendingPR (repoState (daemonStep cfg d oc)) r)" by simp
  from Cons.IH [OF this] s k show ?case by (simp add: runDaemon_def)
qed

lemma opensPR_deps_error:
  "fst (depsStage cfg n repo p w) = Some e \<Longrightarrow>
     filter (opensPR r) (snd (snd (depsStage cfg n repo p w))) = []"
  by (auto simp: depsStage_def split: sum.splits option.splits if_splits)

lemma checkRepo_opened_recorded:
  assumes opened: "prsOpened repo (snd (snd (checkRepo cfg n rs repo w))) \<noteq> []"
    and pr: "wCreatePR w = Inr pr"
    and kept: "rs repo \<noteq> None \<or> (\<exists>status. fst (snd (checkRepo cfg n rs repo w)) = Success status)"
  shows "storedPendingPR (fst (checkRepo cfg n rs repo w)) repo = Some (number pr)"
proof (cases "wStatus w")
  case (Inl e)
  with opened show ?thesis by (simp add: checkRepo_def prsOpened_def Let_def)
next
  case (Inr status)
  let ?p = "prevOf rs repo"
  obtain e1 c1 where b: "buildStage repo ?p status w = (e1, c1)"
    by (cases "buildStage repo ?p status w")
  obtain e2 p1 c2 where d: "depsStage cfg n repo ?p w = (e2, p1, c2)"
    by (cases "depsStage cfg n repo ?p w") auto
  obtain e3 p2 c3 where r: "releaseStage repo p1 w = (e3, p2, c3)"
    by (cases "releaseStage repo p1 w") auto
  have f1: "filter (opensPR repo) c1 = []"
    using opensPR_build [of repo repo ?p status w] b by simp
  have f3: "filter (opensPR repo) c3 = []"
    using opensPR_release [of repo repo p1 w] r by simp
  have p2: "pendingDepsPR p2 = pendingDepsPR p1"
    using releaseStage_state(2) [of repo p1 w] r by simp
  show ?thesis
  proof (cases e1)
    case (Some e)
    with opened f1 show ?thesis
      by (simp add: checkRepo_def Let_def Inr b prsOpened_def)
  next
    case None
    note e1 = this
    show ?thesis
    proof (cases e2)
      case (Some e)
      then have "filter (opensPR repo) c2 = []"
        using opensPR_deps_error [of cfg n repo ?p w e repo] d by simp
      with opened f1 Some e1 show ?thesis
        by (simp add: checkRepo_def Let_def Inr b d prsOpened_def)
    next
      case None
      note e2 = this
      have c2: "filter (opensPR repo) c2 \<noteq> []"
      proof
        assume "filter (opensPR repo) c2 = []"
        with opened f1 f3 e1 e2 show False
          by (cases e3) (simp_all add: checkRepo_def Let_def Inr b d r prsOpened_def)
      qed
      from opensPR_deps_opened [of repo cfg n ?p w pr] c2 pr d
      have p1: "pendingDepsPR p1 = Some (number pr)" by simp
      show ?thesis
      proof (cases e3)
        case None
        with e1 e2 p1 p2 show ?thesis
          by (simp add: checkRepo_def Let_def Inr b d r storedPendingPR_def)
      next
        case (Some e)
        with e1 e2 have "\<not> (\<exists>status. fst (snd (checkRepo cfg n rs repo w)) = Success status)"
          by (simp add: checkRepo_def Let_def Inr b d r)
        with kept obtain q where "rs repo = Some q" by auto
        with Some e1 e2 p1 p2 show ?thesis
          by (simp add: checkRepo_def Let_def Inr b d r writeThrough_def storedPendingPR_def)
      qed
    qed
  qed
qed

lemma pollStoredThenError:
  "checkRepo oneRepo 4 afterFirstPoll ''o/r'' wUpdateThenError =
     ([''o/r'' \<mapsto> \<lparr>failedBuilds = Some 3, pendingDepsPR = Some 7, releaseNotified = True,
                      lastCheck = Some 0\<rparr>],
      Failed (Error ''503''),
      [GetRepoStatus ''o/r'', ScanDependencies ''o/r'',
       CreateDependencyUpdatePR ''o/r'' [patchUpdate], NotifyDependencyUpdate ''o/r'' 7,
       IsReleaseNeeded ''o/r''])"
  unfolding afterFirstPoll_def poll1
  by (simp add: daemon_defs wUpdateThenError_def wUpdate_def quietStatus_def)
     (simp add: patchUpdate_def)

text \<open>
  Claim C5, as amended. Opening a dependency-update pull request writes its number to
  \<^verbatim>\<open>pendingDepsPR\<close> of the state object of the repository. For a repository that
  already has a stored state this is the stored state at once, also when the poll fails
  afterwards; for a poll that completes it is stored at the end of the poll. While a
  nonzero number is stored there, no run of the daemon, whatever ticks and answers it
  gets, calls \<^verbatim>\<open>createDependencyUpdatePR\<close> for that repository again, and the stored
  number stays as it is: the daemon has no operation that clears it.
\<close>

theorem pending_pr_blocks_further_prs:
  "(prsOpened repo (snd (snd (depsStage cfg n repo p w))) \<noteq> [] \<and> wCreatePR w = Inr pr \<longrightarrow>
      pendingDepsPR (fst (snd (depsStage cfg n repo p w))) = Some (number pr))
   \<and> (prsOpened repo (snd (snd (checkRepo cfg n rs repo w))) \<noteq> [] \<and> wCreatePR w = Inr pr
      \<and> (rs repo \<noteq> None \<or> (\<exists>status. fst (snd (checkRepo cfg n rs repo w)) = Success status))
      \<longrightarrow> storedPendingPR (fst (checkRepo cfg n rs repo w)) repo = Some (number pr))
   \<and> (truthy (storedPendingPR (repoState d) repo) \<longrightarrow>
        prsOpened repo (calls (runDaemon cfg d os)) = prsOpened repo (calls d)
        \<and> storedPendingPR (repoState (runDaemon cfg d os)) repo
            = storedPendingPR (repoState d) repo)"
proof (intro conjI impI)
  assume "prsOpened repo (snd (snd (depsStage cfg n repo p w))) \<noteq> [] \<and> wCreatePR w = Inr pr"
  then show "pendingDepsPR (fst (snd (depsStage cfg n repo p w))) = Some (number pr)"
    using opensPR_deps_opened [of repo cfg n p w pr] by (simp add: prsOpened_def)
next
  assume "prsOpened repo (snd (snd (checkRepo cfg n rs repo w))) \<noteq> [] \<and> wCreatePR w = Inr pr
      \<and> (rs repo \<noteq> None \<or> (\<exists>status. fst (snd (checkRepo cfg n rs repo w)) = Success status))"
  then show "storedPendingPR (fst (checkRepo cfg n rs repo w)) repo = Some (number pr)"
    using checkRepo_opened_recorded [of repo cfg n rs w pr] by blast
next
  assume t: "truthy (storedPendingPR (repoState d) repo)"
  from runDaemon_pending [OF t, of cfg os]
  show "prsOpened repo (calls (runDaemon cfg d os)) = prsOpened repo (calls d)"
    and "storedPendingPR (repoState (runDaemon cfg d os)) repo
            = storedPendingPR (repoState d) repo"
    by blast+
qed

theorem pending_pr_blocks_further_prs_witness:
  "storedPendingPR afterPR ''o/r'' = Some 7
   \<and> storedPendingPR (fst (checkRepo oneRepo 4 afterFirstPoll ''o/r'' wUpdateThenError)) ''o/r''
       = Some 7
   \<and> prsOpened ''o/r'' (calls (runDaemon oneRepo dPending [Tick 0, Resume 0 wUpdate]))
       = prsOpened ''o/r'' (calls dPending)"
proof -
  let ?pr = "\<lparr>number = 7, url = ''https://github.com/o/r/pull/7''\<rparr>"
  have a: "prsOpened ''o/r'' (snd (snd (checkRepo oneRepo 4 Map.empty ''o/r'' wUpdate))) \<noteq> []
      \<and> wCreatePR wUpdate = Inr ?pr
      \<and> (Map.empty ''o/r'' \<noteq> None
          \<or> (\<exists>status. fst (snd (checkRepo oneRepo 4 Map.empty ''o/r'' wUpdate)) = Success status))"
    unfolding pollUpdate by (simp add: prsOpened_def wUpdate_def)
  have ne: "afterFirstPoll ''o/r'' \<noteq> None"
    unfolding afterFirstPoll_def poll1 by simp
  have b: "prsOpened ''o/r'' (snd (snd (checkRepo oneRepo 4 afterFirstPoll ''o/r'' wUpdateThenError))) \<noteq> []
      \<and> wCreatePR wUpdateThenError = Inr ?pr
      \<and> (afterFirstPoll ''o/r'' \<noteq> None
          \<or> (\<exists>status. fst (snd (checkRepo oneRepo 4 afterFirstPoll ''o/r'' wUpdateThenError))
                = Success status))"
    unfolding pollStoredThenError
    using ne by (simp add: prsOpened_def wUpdate_def wUpdateThenError_def)
  have stored: "storedPendingPR afterPR ''o/r'' = Some 7"
    unfolding afterPR_def pollUpdate by (simp add: storedPendingPR_def)
  have c: "truthy (storedPendingPR (repoState dPending) ''o/r'')"
    by (simp add: dPending_def stored truthy_def)
  from a pending_pr_blocks_further_prs
    [where cfg = oneRepo and n = 4 and rs = Map.empty and repo = "''o/r''" and w = wUpdate
       and pr = ?pr]
  have one: "storedPendingPR (fst (checkRepo oneRepo 4 Map.empty ''o/r'' wUpdate)) ''o/r'' = Some 7"
    by simp
  from b pending_pr_blocks_further_prs
    [where cfg = oneRepo and n = 4 and rs = afterFirstPoll and repo = "''o/r''"
       and w = wUpdateThenError and pr = ?pr]
  have two: "storedPendingPR (fst (checkRepo oneRepo 4 afterFirstPoll ''o/r'' wUpdateThenError))
       ''o/r'' = Some 7"
    by simp
  from c pending_pr_blocks_further_prs
    [where repo = "''o/r''" and d = dPending and cfg = oneRepo
       and os = "[Tick 0, Resume 0 wUpdate]"]
  have three: "prsOpened ''o/r'' (calls (runDaemon oneRepo dPending [Tick 0, Resume 0 wUpdate]))
       = prsOpened ''o/r'' (calls dPending)"
    by simp
  from one two three show ?thesis by (simp add: afterPR_def)
qed

text \<open>
  The claim as stated has the field cleared from outside, through an operation
  \<^verbatim>\<open>clearPendingPR\<close>, after which pull requests are opened again. The daemon has no
  such operation: from a state that holds pull request 7 as pending, no sequence of ticks
  and answers changes the stored number or opens another pull request.
\<close>

theorem pending_pr_never_cleared:
  "\<not> (\<exists>os. storedPendingPR (repoState (runDaemon oneRepo dPending os)) ''o/r'' \<noteq> Some 7
           \<or> prsOpened ''o/r'' (calls (runDaemon oneRepo dPending os)) \<noteq> [])"
proof -
  have stored: "storedPendingPR (repoState dPending) ''o/r'' = Some 7"
    unfolding dPending_def afterPR_def pollUpdate by (simp add: storedPendingPR_def)
  then have t: "truthy (storedPendingPR (repoState dPending) ''o/r'')"
    by (simp add: truthy_def)
  have none: "prsOpened ''o/r'' (calls dPending) = []"
    by (simp add: dPending_def initialDaemon_def prsOpened_def)
  from runDaemon_pending [OF t, of oneRepo] stored none show ?thesis by simp
qed

text \<open>
  A defect next to it. When the repository has no stored state yet, the number is written
  to a fresh object that reaches the map only at the end of a completed poll. GitHub is
  down during the first three cycles; in cycle four, the first poll that gets through
  opens pull request 7 and then fails on the release request, and the number is lost;
  three more cycles fail; cycle eight opens a second pull request.
\<close>

lemma pr_opened_twice_after_failed_poll:
  "prsOpened ''o/r'' (calls (runDaemon oneRepo initialDaemon twoAttempts))
     = [CreateDependencyUpdatePR ''o/r'' [patchUpdate],
        CreateDependencyUpdatePR ''o/r'' [patchUpdate]]
   \<and> storedPendingPR
        (repoState (runDaemon oneRepo initialDaemon (outage @ [Tick 0, Resume 0 wUpdateThenError])))
        ''o/r'' = None"
  by (simp add: twoAttempts_def outage_def step_defs oneRepo_targets pollDown
        pollUpdateThenError prsOpened_def storedPendingPR_def Let_def)

subsection \<open>One cycle at a time\<close>

lemma oneCycle_initial: "oneCycle initialDaemon"
  by (simp add: oneCycle_def initialDaemon_def)

lemma oneCycle_start: "oneCycle d \<Longrightarrow> oneCycle (runCheckStart cfg now d)"
  by (auto simp: oneCycle_def runCheckStart_def Let_def)

lemma oneCycle_resume: "oneCycle d \<Longrightarrow> oneCycle (runCheckResume cfg i w d)"
proof -
  assume inv: "oneCycle d"
  show ?thesis
  proof (cases "i < length (activations d)")
    case False
    with inv show ?thesis by (simp add: runCheckResume_def)
  next
    case True
    with inv obtain a where acts: "activations d = [a]" and i: "i = 0"
      by (cases "activations d") (auto simp: oneCycle_def)
    from inv acts obtain repo rest where rem: "remaining a = repo # rest"
      by (cases "remaining a") (auto simp: oneCycle_def)
    obtain rs res cs where c: "checkRepo cfg (checkCount d) (repoState d) repo w = (rs, res, cs)"
      by (cases "checkRepo cfg (checkCount d) (repoState d) repo w") auto
    from inv show ?thesis
      by (cases "rest = []") (simp_all add: runCheckResume_def Let_def acts i rem c oneCycle_def)
  qed
qed

lemma oneCycle_step: "oneCycle d \<Longrightarrow> oneCycle (daemonStep cfg d oc)"
  by (cases oc) (simp_all add: oneCycle_start oneCycle_resume)

lemma oneCycle_run: "oneCycle d \<Longrightarrow> oneCycle (runDaemon cfg d os)"
  by (induction os arbitrary: d) (simp_all add: runDaemon_def oneCycle_step)

lemma tick_while_running: "isRunning d \<Longrightarrow> runCheckStart cfg now d = d"
  by (simp add: runCheckStart_def)

lemma tick_sets_flag:
  "\<not> isRunning d \<Longrightarrow> targetRepos cfg \<noteq> [] \<Longrightarrow>
     isRunning (runCheckStart cfg now d) \<and> calls (runCheckStart cfg now d) = calls d
     \<and> repoState (runCheckStart cfg now d) = repoState d"
  by (simp add: runCheckStart_def Let_def)

lemma resume_last:
  "activations d = [a] \<Longrightarrow> remaining a = [repo] \<Longrightarrow>
     \<not> isRunning (runCheckResume cfg 0 w d) \<and> activations (runCheckResume cfg 0 w d) = []"
  by (simp add: runCheckResume_def Let_def split: prod.splits)

lemma resume_more:
  "activations d = [a] \<Longrightarrow> remaining a = repo # rest \<Longrightarrow> rest \<noteq> [] \<Longrightarrow>
     isRunning (runCheckResume cfg 0 w d) = isRunning d
     \<and> (\<exists>a'. activations (runCheckResume cfg 0 w d) = [a'] \<and> remaining a' = rest)"
  by (simp add: runCheckResume_def Let_def split: prod.splits)

lemma drain:
  "activations d = [a] \<Longrightarrow> remaining a \<noteq> [] \<Longrightarrow> length ws = length (remaining a) \<Longrightarrow>
     \<not> isRunning (runDaemon cfg d (map (Resume 0) ws))"
proof (induction ws arbitrary: d a)
  case Nil
  then show ?case by simp
next
  case (Cons w ws)
  from Cons.prems obtain repo rest where rem: "remaining a = repo # rest"
    by (cases "remaining a") auto
  show ?case
  proof (cases "rest = []")
    case True
    with Cons.prems rem have "ws = []" by simp
    with resume_last [of d a repo cfg w] Cons.prems(1) rem True show ?thesis
      by (simp add: runDaemon_def)
  next
    case False
    from resume_more [OF Cons.prems(1) rem False, of cfg w]
    obtain a' where a': "activations (runCheckResume cfg 0 w d) = [a']" "remaining a' = rest"
      by blast
    from Cons.prems(3) rem have "length ws = length (remaining a')" by (simp add: a')
    from Cons.IH [OF a'(1) _ this] False a'(2)
    have "\<not> isRunning (runDaemon cfg (runCheckResume cfg 0 w d) (map (Resume 0) ws))" by simp
    then show ?thesis by (simp add: runDaemon_def)
  qed
qed

lemma drain_running:
  assumes inv: "oneCycle d" and run: "isRunning d"
    and len: "length ws = length (remaining (hd (activations d)))"
  shows "\<not> isRunning (runDaemon cfg d (map (Resume 0) ws))"
proof -
  from inv run obtain a where acts: "activations d = [a]" and rem: "remaining a \<noteq> []"
    by (cases "activations d") (auto simp: oneCycle_def)
  from len acts have "length ws = length (remaining a)" by simp
  from drain [OF acts rem this] show ?thesis .
qed

text \<open>
  Claim C8. In every state the daemon reaches from its start, under any sequence of ticks
  and answers, at most one activation of \<^verbatim>\<open>runCheck\<close> is in flight, and the flag
  \<^verbatim>\<open>isRunning\<close> is set exactly while there is one. A tick that finds the flag set
  changes nothing: no call is made and no state is touched. A tick that finds it clear
  sets it before any call is made. An activation in flight clears the flag when the answer
  for its last repository has come, whatever the answers were, errors included:
  \<^verbatim>\<open>checkRepo\<close> catches them and the loop goes on.
\<close>

theorem one_cycle_at_a_time:
  "length (activations (runDaemon cfg initialDaemon os)) \<le> 1
   \<and> isRunning (runDaemon cfg initialDaemon os)
       = (activations (runDaemon cfg initialDaemon os) \<noteq> [])
   \<and> (isRunning (runDaemon cfg initialDaemon os) \<longrightarrow>
        runCheckStart cfg now (runDaemon cfg initialDaemon os) = runDaemon cfg initialDaemon os)
   \<and> (\<not> isRunning (runDaemon cfg initialDaemon os) \<and> targetRepos cfg \<noteq> [] \<longrightarrow>
        isRunning (runCheckStart cfg now (runDaemon cfg initialDaemon os))
        \<and> calls (runCheckStart cfg now (runDaemon cfg initialDaemon os))
            = calls (runDaemon cfg initialDaemon os))
   \<and> (isRunning (runDaemon cfg initialDaemon os)
        \<and> length ws = length (remaining (hd (activations (runDaemon cfg initialDaemon os)))) \<longrightarrow>
        \<not> isRunning (runDaemon cfg (runDaemon cfg initialDaemon os) (map (Resume 0) ws)))"
proof -
  let ?d = "runDaemon cfg initialDaemon os"
  have inv: "oneCycle ?d" by (rule oneCycle_run) (rule oneCycle_initial)
  then have "length (activations ?d) \<le> 1" and "isRunning ?d = (activations ?d \<noteq> [])"
    by (simp_all add: oneCycle_def)
  moreover have "isRunning ?d \<longrightarrow> runCheckStart cfg now ?d = ?d"
    by (simp add: tick_while_running)
  moreover have "\<not> isRunning ?d \<and> targetRepos cfg \<noteq> [] \<longrightarrow>
        isRunning (runCheckStart cfg now ?d) \<and> calls (runCheckStart cfg now ?d) = calls ?d"
    using tick_sets_flag [of ?d cfg now] by blast
  moreover have "isRunning ?d \<and> length ws = length (remaining (hd (activations ?d))) \<longrightarrow>
        \<not> isRunning (runDaemon cfg ?d (map (Resume 0) ws))"
    using drain_running [OF inv] by blast
  ultimately show ?thesis by blast
qed

theorem one_cycle_at_a_time_witness:
  "isRunning (runDaemon oneRepo initialDaemon [Tick 0])
   \<and> runCheckStart oneRepo 5 (runDaemon oneRepo initialDaemon [Tick 0])
       = runDaemon oneRepo initialDaemon [Tick 0]
   \<and> \<not> isRunning (runDaemon oneRepo (runDaemon oneRepo initialDaemon [Tick 0])
                      (map (Resume 0) [wDown]))"
proof -
  have r: "isRunning (runDaemon oneRepo initialDaemon [Tick 0])"
    by (simp add: step_defs oneRepo_targets Let_def)
  have l: "length [wDown]
      = length (remaining (hd (activations (runDaemon oneRepo initialDaemon [Tick 0]))))"
    by (simp add: step_defs oneRepo_targets Let_def)
  from r l one_cycle_at_a_time
    [where cfg = oneRepo and os = "[Tick 0]" and now = 5 and ws = "[wDown]"]
  show ?thesis by blast
qed

subsection \<open>Restart of the process\<close>

lemma getLastAlert_saveErrors: "getLastAlert (saveErrors f es) fp = getLastAlert f fp"
  by (simp add: getLastAlert_def saveErrors_def)

lemma getLastAlert_checkAlertThreshold:
  "getLastAlert (fst (checkAlertThreshold f now e)) fp =
     (if fp \<in> alertFp ` set (snd (checkAlertThreshold f now e)) then Some now
      else getLastAlert f fp)"
  by (simp add: checkAlertThreshold_def Let_def alertFp_triggerAlert getLastAlert_triggerAlert
      split: option.splits)

lemma getLastAlert_logError:
  "getLastAlert (fst (logError f newId now error)) fp =
     (if fp \<in> alertFp ` set (snd (snd (logError f newId now error))) then Some now
      else getLastAlert f fp)"
  by (simp add: logError_def Let_def split_beta getLastAlert_checkAlertThreshold
        getLastAlert_saveErrors)

text \<open>
  Claim C6, as amended. The alert records are written to disk at every update, and the
  error monitor reads nothing but the disk: after a restart of the process
  \<^verbatim>\<open>logError\<close> returns what it would have returned without it, and the alert time of
  every fingerprint it alerts for is on disk when it returns. The state per repository is
  held in memory only: after a restart the map is empty and the cycle counter is zero.
\<close>

theorem alert_records_survive_restart:
  "logError (disk (restartProcess p)) newId now error = logError (disk p) newId now error
   \<and> getLastAlert (recordAlert f now fp) fp = Some now
   \<and> getLastAlert (fst (logError (disk p) newId now error)) fp =
       (if fp \<in> alertFp ` set (snd (snd (logError (disk p) newId now error))) then Some now
        else getLastAlert (disk p) fp)
   \<and> repoState (memory (restartProcess p)) = Map.empty
   \<and> checkCount (memory (restartProcess p)) = 0"
  by (simp add: restartProcess_def restart_def initialDaemon_def getLastAlert_recordAlert
        getLastAlert_logError)

theorem alert_records_survive_restart_witness:
  "logError (disk (restartProcess exampleProcess)) ''e2'' 60000 (errorFrom ''web'')
     = logError (disk exampleProcess) ''e2'' 60000 (errorFrom ''web'')
   \<and> getLastAlert (fst (logError (disk exampleProcess) ''e2'' 60000 (errorFrom ''web'')))
        ''d2VifHRpbWVvdXR8'' = Some 60000
   \<and> repoState (memory (restartProcess exampleProcess)) = Map.empty"
  using alert_records_survive_restart
    [where p = exampleProcess and newId = "''e2''" and now = 60000
       and error = "errorFrom ''web''" and fp = "''d2VifHRpbWVvdXR8''"]
  by (simp add: exampleProcess_def step2)

text \<open>
  The claim as stated has the daemon decide after a restart as it would have without. Two
  polls see three failed builds: without a restart the failure is reported once, with a
  restart between them it is reported twice.
\<close>

theorem target_state_lost_on_restart:
  "buildAlarms ''o/r''
     (calls (runDaemon oneRepo initialDaemon
        [Tick 0, Resume 0 (wFailing 3), Tick 0, Resume 0 (wFailing 3)])) = 1
   \<and> buildAlarms ''o/r''
     (calls (runDaemon oneRepo
        (restart (runDaemon oneRepo initialDaemon [Tick 0, Resume 0 (wFailing 3)]))
        [Tick 0, Resume 0 (wFailing 3)])) = 2"
  by (simp add: step_defs oneRepo_targets buildAlarms_def Let_def)
     (simp add: daemon_defs world_defs)

end
